theory Spec2Isabelle
  imports Main
begin

section \<open>Strings, JavaScript truthiness and number formatting\<close>

text \<open>
  JavaScript strings are modelled as \<^typ>\<open>string\<close>. An optional property (\<open>title?: string\<close>)
  is a \<^typ>\<open>string option\<close>; \<open>undefined\<close> is \<^term>\<open>None\<close>. The operator \<open>a || b\<close> takes
  \<open>b\<close> when \<open>a\<close> is \<open>undefined\<close> or the empty string.
\<close>

definition truthy :: "string option \<Rightarrow> bool" where
  "truthy a = (case a of None \<Rightarrow> False | Some s \<Rightarrow> s \<noteq> [])"

definition js_or :: "string option \<Rightarrow> string \<Rightarrow> string" where
  "js_or a b = (case a of None \<Rightarrow> b | Some s \<Rightarrow> if s \<noteq> [] then s else b)"

definition startsWith :: "string \<Rightarrow> string \<Rightarrow> bool" where
  "startsWith s p = (take (length p) s = p)"

definition join_str :: "string \<Rightarrow> string list \<Rightarrow> string" where
  \<comment> \<open>\<open>Array.prototype.join(sep)\<close>\<close>
  "join_str sep xs = (case xs of [] \<Rightarrow> [] | y # ys \<Rightarrow> y @ concat (map (\<lambda>l. sep @ l) ys))"

definition join_lines :: "string list \<Rightarrow> string" where
  "join_lines xs = join_str [CHR 0x0A] xs"

definition digit_char :: "nat \<Rightarrow> char" where
  "digit_char d = ''0123456789'' ! d"

fun show_nat :: "nat \<Rightarrow> string" where
  "show_nat n = (if n < 10 then [digit_char n] else show_nat (n div 10) @ [digit_char (n mod 10)])"

declare show_nat.simps [simp del]

fun contains_at :: "string \<Rightarrow> string \<Rightarrow> bool" where
  "contains_at s [] = True"
| "contains_at [] (p # ps) = False"
| "contains_at (c # cs) (p # ps) = (c = p \<and> contains_at cs ps)"

fun includes_str :: "string \<Rightarrow> string \<Rightarrow> bool" where
  \<comment> \<open>\<open>s.includes(p)\<close>: \<open>p\<close> occurs in \<open>s\<close> as a contiguous substring\<close>
  "includes_str [] p = (p = [])"
| "includes_str (c # cs) p = (contains_at (c # cs) p \<or> includes_str cs p)"

fun count_str :: "string \<Rightarrow> string \<Rightarrow> nat" where
  \<comment> \<open>the number of positions of \<open>s\<close> at which \<open>p\<close> occurs\<close>
  "count_str [] p = (if p = [] then 1 else 0)"
| "count_str (c # cs) p = (if contains_at (c # cs) p then 1 else 0) + count_str cs p"

section \<open>Node's \<open>path\<close> module (POSIX flavour)\<close>

text \<open>
  \<open>path.basename(p)\<close> scans \<open>p\<close> from its end: trailing slashes are skipped, then the
  characters back to the previous slash are the result.
\<close>

definition is_slash :: "char \<Rightarrow> bool" where
  "is_slash c = (c = CHR ''/'')"

definition basename :: "string \<Rightarrow> string" where
  "basename p = rev (takeWhile (\<lambda>c. \<not> is_slash c) (dropWhile is_slash (rev p)))"

text \<open>
  \<open>path.extname(p)\<close>: the part of the last segment from its last dot on; empty when the
  segment has no dot, when the last dot is the segment's first character, and for the
  segment \<open>..\<close>.
\<close>

definition extname :: "string \<Rightarrow> string" where
  "extname p =
     (let b = basename p;
          e = rev (takeWhile (\<lambda>c. c \<noteq> CHR ''.'') (rev b))
      in if CHR ''.'' \<notin> set b then []
         else if length b = Suc (length e) then []
         else if b = ''..'' then []
         else CHR ''.'' # e)"

text \<open>
  \<open>path.basename(p, path.extname(p))\<close>: the extension \<open>extname\<close> returns is a proper suffix
  of the last segment, and \<open>basename\<close> with that suffix removes it.
\<close>

definition basename_noext :: "string \<Rightarrow> string" where
  "basename_noext p = (let b = basename p in take (length b - length (extname p)) b)"

section \<open>The data model (\<open>types.ts\<close>)\<close>

record Config =
  cfg_author :: "string option"
  cfg_language :: "string option"
  cfg_publisher :: "string option"
  cfg_cover :: "string option"
  cfg_outputDir :: "string option"
  cfg_title :: "string option"
  cfg_description :: "string option"
  cfg_rights :: "string option"
  cfg_identifier :: "string option"

record EpubMetadata =
  title :: string
  author :: string
  language :: string
  publisher :: "string option"
  description :: "string option"
  rights :: "string option"
  "identifier" :: string
  cover :: "string option"
  createdDate :: string

record ImageReference =
  src :: string
  resolvedPath :: string
  mediaType :: string
  img_id :: string

record MarkdownContent =
  md_html :: string
  md_images :: "ImageReference list"
  md_title :: "string option"

record Chapter =
  ch_title :: string
  ch_html :: string
  ch_id :: string
  ch_order :: nat

text \<open>\<open>config?.field\<close>: \<open>undefined\<close> when there is no config at all.\<close>

definition cfg :: "Config option \<Rightarrow> (Config \<Rightarrow> string option) \<Rightarrow> string option" where
  "cfg config field = (case config of None \<Rightarrow> None | Some c \<Rightarrow> field c)"

section \<open>The file system and the console\<close>

text \<open>
  The operating system resolves a path text to a file by its components: empty
  components and \<open>.\<close> are skipped and \<open>..\<close> steps back. A resolved path is the list of
  the components that remain; an absolute path starts with the empty component.
\<close>

type_synonym fpath = "string list"

fun segments :: "string \<Rightarrow> string list" where
  "segments [] = [[]]"
| "segments (c # cs) =
     (if is_slash c then [] # segments cs
      else (case segments cs of [] \<Rightarrow> [[c]] | s # ss \<Rightarrow> (c # s) # ss))"

definition norm_step :: "fpath \<Rightarrow> string \<Rightarrow> fpath" where
  "norm_step st s =
     (if s = [] \<or> s = ''.'' then st
      else if s = ''..'' then
        (if st = [] \<or> last st = ''..'' then st @ [''..'']
         else if st = [[]] then st
         else butlast st)
      else st @ [s])"

definition resolve :: "string \<Rightarrow> fpath" where
  "resolve p = foldl norm_step (if startsWith p ''/'' then [[]] else []) (segments p)"

definition under :: "fpath \<Rightarrow> fpath \<Rightarrow> bool" where
  \<comment> \<open>\<open>under d k\<close>: \<open>k\<close> is \<open>d\<close> or lies below it\<close>
  "under d k = (take (length d) k = d)"

text \<open>
  \<open>path.join(...)\<close> joins its non-empty arguments with a slash. Node also normalises the
  joined text; the normalised text resolves to the same file, and \<^const>\<open>resolve\<close> does that
  step here.
\<close>

definition path_join :: "string list \<Rightarrow> string" where
  "path_join parts =
     (let ps = filter (\<lambda>p. p \<noteq> []) parts in if ps = [] then ''.'' else join_str ''/'' ps)"

text \<open>
  \<open>path.dirname(p)\<close>: scanning from the end down to index 1, the first slash after a
  character that is no slash ends the result.
\<close>

definition dirname :: "string \<Rightarrow> string" where
  "dirname p =
     (if p = [] then ''.''
      else let hasRoot = is_slash (hd p);
               r = dropWhile (\<lambda>c. \<not> is_slash c) (dropWhile is_slash (rev (tl p)))
           in if r = [] then (if hasRoot then ''/'' else ''.'')
              else if hasRoot \<and> length r = 1 then ''//''
              else take (length r) p)"

datatype compression = Stored | Deflated

datatype content = Bytes string | Zip "entry list"
  and entry = Entry (entry_name: string) (entry_data: content) (entry_method: compression)

datatype error =
    ENOENT string
  | EISDIR string
  | EACCES string
  | HttpStatus nat
  | NetworkError string
  | InputNotFound string
  | NoInputFiles
  | ParseError

datatype console_line = LogLine string | WarnLine string error

text \<open>
  The world a conversion runs in: the files and directories by resolved path, the paths
  on which the operating system refuses every access (\<open>faults\<close>, which stand for
  permissions, a full disk and the like), and the lines printed so far.
\<close>

record world =
  files :: "(fpath \<times> content) list"
  dirs :: "fpath list"
  faults :: "fpath set"
  console :: "console_line list"

definition console_log :: "string \<Rightarrow> world \<Rightarrow> world" where
  "console_log s w = w\<lparr> console := console w @ [LogLine s] \<rparr>"

definition console_warn :: "string \<Rightarrow> error \<Rightarrow> world \<Rightarrow> world" where
  "console_warn s e w = w\<lparr> console := console w @ [WarnLine s e] \<rparr>"

definition read_file :: "world \<Rightarrow> fpath \<Rightarrow> content option" where
  "read_file w k = map_of (files w) k"

definition dir_exists :: "world \<Rightarrow> fpath \<Rightarrow> bool" where
  "dir_exists w k = (k = [] \<or> k = [[]] \<or> k \<in> set (dirs w))"

definition put_file :: "fpath \<Rightarrow> content \<Rightarrow> world \<Rightarrow> world" where
  "put_file k c w = w\<lparr> files := (k, c) # filter (\<lambda>(k', c'). k' \<noteq> k) (files w) \<rparr>"

text \<open>\<open>fs.promises.mkdir(p, { recursive: true })\<close>\<close>

fun ancestors_of :: "fpath \<Rightarrow> fpath list" where
  \<comment> \<open>the path itself and the directories above it, the topmost first\<close>
  "ancestors_of [] = []"
| "ancestors_of (x # xs) = [x] # map ((#) x) (ancestors_of xs)"

definition mkdir :: "string \<Rightarrow> world \<Rightarrow> error + world" where
  "mkdir p w =
     (let k = resolve p;
          ancestors = ancestors_of k
      in if k \<in> faults w then Inl (EACCES p)
         else if list_ex (\<lambda>a. read_file w a \<noteq> None) ancestors then Inl (ENOENT p)
         else Inr (w\<lparr> dirs := filter (\<lambda>a. a \<notin> set (dirs w)) ancestors @ dirs w \<rparr>))"

text \<open>\<open>fs.promises.writeFile(p, data, 'utf-8')\<close>, and the write a stream opened on \<open>p\<close> does.\<close>

definition write_content :: "string \<Rightarrow> content \<Rightarrow> world \<Rightarrow> error + world" where
  "write_content p c w =
     (let k = resolve p
      in if k \<in> faults w then Inl (EACCES p)
         else if dir_exists w k then Inl (EISDIR p)
         else if \<not> dir_exists w (butlast k) then Inl (ENOENT p)
         else Inr (put_file k c w))"

definition writeFile :: "string \<Rightarrow> string \<Rightarrow> world \<Rightarrow> error + world" where
  "writeFile p text w = write_content p (Bytes text) w"

text \<open>\<open>fs.promises.copyFile(src, dest)\<close>\<close>

definition copyFile :: "string \<Rightarrow> string \<Rightarrow> world \<Rightarrow> error + world" where
  "copyFile source dest w =
     (let k = resolve source
      in if k \<in> faults w then Inl (EACCES source)
         else (case read_file w k of
                 None \<Rightarrow> Inl (ENOENT source)
               | Some c \<Rightarrow> write_content dest c w))"

text \<open>
  \<open>fs.promises.rm(p, { recursive: true, force: true })\<close> removes \<open>p\<close> and everything
  below it, and with \<open>force\<close> a missing \<open>p\<close> is no error. It rejects when the operating
  system refuses an entry it meets: \<open>p\<close> itself, or a file or a directory below \<open>p\<close>
  (\<open>refused_below\<close>). What can be removed is removed all the same; a refused entry stays,
  with everything below it and the directories above it (\<open>stays\<close>).
\<close>

definition refused_below :: "fpath \<Rightarrow> world \<Rightarrow> fpath list" where
  "refused_below k w =
     (if k \<in> faults w then [k] else [])
     @ filter (\<lambda>k'. under k k' \<and> k' \<in> faults w) (map fst (files w) @ dirs w)"

definition stays :: "fpath list \<Rightarrow> fpath \<Rightarrow> bool" where
  "stays refused k' = list_ex (\<lambda>f. under k' f \<or> under f k') refused"

definition rm :: "string \<Rightarrow> world \<Rightarrow> error option \<times> world" where
  "rm p w =
     (let k = resolve p;
          refused = refused_below k w;
          w' = w\<lparr> files := filter (\<lambda>(k', c). stays refused k' \<or> \<not> under k k') (files w),
                 dirs := filter (\<lambda>k'. stays refused k' \<or> \<not> under k k') (dirs w) \<rparr>
      in (if refused = [] then None else Some (EACCES p), w'))"

definition unlink :: "string \<Rightarrow> world \<Rightarrow> world" where
  "unlink p w = w\<lparr> files := filter (\<lambda>(k', c). k' \<noteq> resolve p) (files w) \<rparr>"

text \<open>
  A sequence of awaited operations: the first that throws ends the sequence, and the
  world is then the one the earlier operations left.
\<close>

fun run_steps :: "(world \<Rightarrow> error + world) list \<Rightarrow> world \<Rightarrow> error option \<times> world" where
  "run_steps [] w = (None, w)"
| "run_steps (a # as) w = (case a w of Inl e \<Rightarrow> (Some e, w) | Inr w' \<Rightarrow> run_steps as w')"

section \<open>Fetching a remote image (\<open>downloadImage\<close>)\<close>

text \<open>
  The network is a parameter: what a GET of a URL with the \<open>https\<close> or the \<open>http\<close>
  module answers, a network error or a response with its status, its \<open>Location\<close> header
  and its body.
\<close>

datatype net_result = NetError string | Response nat "string option" string

type_synonym network = "bool \<Rightarrow> string \<Rightarrow> net_result"

partial_function (option) downloadImage ::
  "network \<Rightarrow> string \<Rightarrow> string \<Rightarrow> world \<Rightarrow> (error option \<times> world) option" where
  "downloadImage net url destPath w =
     (case net (startsWith url ''https'') url of
        NetError msg \<Rightarrow> Some (Some (NetworkError msg), w)
      | Response statusCode location body \<Rightarrow>
          if (statusCode = 301 \<or> statusCode = 302) \<and> truthy location
          then downloadImage net (the location) destPath w
          else if statusCode \<noteq> 200 then Some (Some (HttpStatus statusCode), w)
          else (case writeFile destPath body w of
                  Inl err \<Rightarrow> Some (Some err, unlink destPath w)
                | Inr w' \<Rightarrow> Some (None, w')))"

declare downloadImage.simps [code]

section \<open>The generated documents (\<open>epub-generator.ts\<close>)\<close>

definition escapeXml_char :: "char \<Rightarrow> string" where
  \<open>escapeXml_char c =
     (if c = CHR ''&'' then ''&amp;''
      else if c = CHR ''<'' then ''&lt;''
      else if c = CHR ''>'' then ''&gt;''
      else if c = CHR ''"'' then ''&quot;''
      else if c = CHR 0x27 then ''&apos;''
      else [c])\<close>

definition escapeXml :: "string \<Rightarrow> string" where
  "escapeXml text = concat (map escapeXml_char text)"

definition optional_element :: "string \<Rightarrow> string option \<Rightarrow> string" where
  \<comment> \<open>\<open>${metadata.x ? `<tag>${escapeXml(metadata.x)}</tag>` : ''}\<close>\<close>
  \<open>optional_element tag v =
     (if truthy v then ''<'' @ tag @ ''>'' @ escapeXml (the v) @ ''</'' @ tag @ ''>'' else [])\<close>

text \<open>
  A manifest entry and its line in the package document. The manifest of the source is
  text; the entries are kept as records here and \<open>render_item\<close> gives each its line.
\<close>

record manifest_item =
  item_id :: string
  item_href :: string
  item_media_type :: string

definition render_item :: "manifest_item \<Rightarrow> string" where
  \<open>render_item it =
     ''    <item id="'' @ item_id it @ ''" href="'' @ item_href it
       @ ''" media-type="'' @ item_media_type it @ ''"/>''\<close>

definition item_lines :: "manifest_item list \<Rightarrow> string" where
  "item_lines its = concat (map (\<lambda>it. render_item it @ [CHR 0x0A]) its)"

definition fixed_items :: "manifest_item list" where
  "fixed_items =
     [\<lparr> item_id = ''ncx'', item_href = ''toc.ncx'', item_media_type = ''application/x-dtbncx+xml'' \<rparr>,
      \<lparr> item_id = ''style'', item_href = ''css/style.css'', item_media_type = ''text/css'' \<rparr>]"

definition content_item :: manifest_item where
  "content_item =
     \<lparr> item_id = ''content'', item_href = ''content.xhtml'',
       item_media_type = ''application/xhtml+xml'' \<rparr>"

definition fixed_manifest :: string where
  "fixed_manifest = item_lines fixed_items"

definition content_manifest :: string where
  "content_manifest = item_lines [content_item]"

text \<open>
  \<open>images.map((img, idx) => ...)\<close>: one item per element of the list, its id built from
  the element's index.
\<close>

definition image_items :: "ImageReference list \<Rightarrow> manifest_item list" where
  "image_items images =
     map (\<lambda>(idx, img). \<lparr> item_id = ''image-'' @ show_nat idx,
                          item_href = ''images/'' @ basename (src img),
                          item_media_type = mediaType img \<rparr>)
       (enumerate 0 images)"

definition imageManifest :: "ImageReference list \<Rightarrow> string" where
  "imageManifest images = join_lines (map render_item (image_items images))"

definition cover_items :: "EpubMetadata \<Rightarrow> manifest_item list" where
  "cover_items m =
     (if truthy (cover m)
      then [\<lparr> item_id = ''cover-image'',
              item_href = ''images/cover'' @ extname (the (cover m)),
              item_media_type = ''image/jpeg'' \<rparr>]
      else [])"

definition coverItem :: "EpubMetadata \<Rightarrow> string" where
  "coverItem m = item_lines (cover_items m)"



text \<open>The spine: one \<open>itemref\<close> per content document.\<close>

definition spine_line :: "string \<Rightarrow> string" where
  \<open>spine_line idref = ''    <itemref idref="'' @ idref @ ''"/>\<newline>''\<close>

definition content_idref :: string where
  "content_idref = ''content''"



definition getContainerXml :: "string" where
  \<open>getContainerXml =
     ''<?xml version="1.0" encoding="UTF-8"?>\<newline>''
     @ ''<container version="1.0" xmlns="urn:oasis:names:tc:opendocument:xmlns:container">\<newline>''
     @ ''  <rootfiles>\<newline>''
     @ ''    <rootfile full-path="OEBPS/content.opf" media-type="application/oebps-package+xml"/>\<newline>''
     @ ''  </rootfiles>\<newline>''
     @ ''</container>''\<close>

text \<open>
  The lines of the package document that carry a metadata value. The template of the
  source is one literal; it is written here as the concatenation of its lines.
\<close>

definition package_line :: "EpubMetadata \<Rightarrow> string" where
  \<open>package_line m =
     ''<package xmlns="http://www.idpf.org/2007/opf" version="3.0" xml:lang="''
     @ language m
     @ ''" unique-identifier="pub-id">\<newline>''\<close>

definition dc_identifier_line :: "EpubMetadata \<Rightarrow> string" where
  \<open>dc_identifier_line m =
     ''    <dc:identifier id="pub-id">''
     @ identifier m
     @ ''</dc:identifier>\<newline>''\<close>

definition dc_title_line :: "EpubMetadata \<Rightarrow> string" where
  \<open>dc_title_line m =
     ''    <dc:title>''
     @ escapeXml (title m)
     @ ''</dc:title>\<newline>''\<close>

definition dc_language_line :: "EpubMetadata \<Rightarrow> string" where
  \<open>dc_language_line m =
     ''    <dc:language>''
     @ language m
     @ ''</dc:language>\<newline>''\<close>

definition dc_creator_line :: "EpubMetadata \<Rightarrow> string" where
  \<open>dc_creator_line m =
     ''    <dc:creator>''
     @ escapeXml (author m)
     @ ''</dc:creator>\<newline>''\<close>

definition dc_publisher_line :: "EpubMetadata \<Rightarrow> string" where
  \<open>dc_publisher_line m =
     ''    ''
     @ optional_element ''dc:publisher'' (publisher m)
     @ ''\<newline>''\<close>

definition dc_description_line :: "EpubMetadata \<Rightarrow> string" where
  \<open>dc_description_line m =
     ''    ''
     @ optional_element ''dc:description'' (description m)
     @ ''\<newline>''\<close>

definition dc_rights_line :: "EpubMetadata \<Rightarrow> string" where
  \<open>dc_rights_line m =
     ''    ''
     @ optional_element ''dc:rights'' (rights m)
     @ ''\<newline>''\<close>

definition dc_date_line :: "EpubMetadata \<Rightarrow> string" where
  \<open>dc_date_line m =
     ''    <dc:date>''
     @ createdDate m
     @ ''</dc:date>\<newline>''\<close>

definition modified_line :: "string \<Rightarrow> string" where
  \<open>modified_line today =
     ''    <meta property="dcterms:modified">''
     @ today
     @ ''</meta>\<newline>''\<close>

definition opf_metadata :: "EpubMetadata \<Rightarrow> string \<Rightarrow> string" where
  \<comment> \<open>the head of the package document, the same text in \<open>getContentOpf\<close> and \<open>getMultiChapterContentOpf\<close>\<close>
  \<open>opf_metadata m today =
     ''<?xml version="1.0" encoding="UTF-8"?>\<newline>''
     @ package_line m
     @ ''  <metadata xmlns:dc="http://purl.org/dc/elements/1.1/">\<newline>''
     @ dc_identifier_line m
     @ dc_title_line m
     @ dc_language_line m
     @ dc_creator_line m
     @ dc_publisher_line m
     @ dc_description_line m
     @ dc_rights_line m
     @ dc_date_line m
     @ modified_line today
     @ ''  </metadata>\<newline>''\<close>

definition getContentOpf :: "EpubMetadata \<Rightarrow> ImageReference list \<Rightarrow> string \<Rightarrow> string" where
  \<open>getContentOpf m images today =
     opf_metadata m today
     @ ''  <manifest>\<newline>''
     @ fixed_manifest
     @ content_manifest
     @ coverItem m
     @ imageManifest images
     @ ''\<newline>''
     @ ''  </manifest>\<newline>''
     @ ''  <spine toc="ncx">\<newline>''
     @ spine_line content_idref
     @ ''  </spine>\<newline>''
     @ ''</package>''\<close>


text \<open>The navigation file, again line by line.\<close>

definition dtb_uid_line :: "EpubMetadata \<Rightarrow> string" where
  \<open>dtb_uid_line m =
     ''    <meta name="dtb:uid" content="''
     @ identifier m
     @ ''"/>\<newline>''\<close>

definition doc_title_line :: "EpubMetadata \<Rightarrow> string" where
  \<open>doc_title_line m =
     ''    <text>''
     @ escapeXml (title m)
     @ ''</text>\<newline>''\<close>

definition nav_label_line :: "string \<Rightarrow> string" where
  \<open>nav_label_line label =
     ''        <text>''
     @ escapeXml label
     @ ''</text>\<newline>''\<close>

definition ncx_head :: "EpubMetadata \<Rightarrow> string" where
  \<comment> \<open>the head of the navigation file, the same text in \<open>getTocNcx\<close> and \<open>getMultiChapterTocNcx\<close>\<close>
  \<open>ncx_head m =
     ''<?xml version="1.0" encoding="UTF-8"?>\<newline>''
     @ ''<ncx xmlns="http://www.daisy.org/z3986/2005/ncx/" version="2005-1">\<newline>''
     @ ''  <head>\<newline>''
     @ dtb_uid_line m
     @ ''    <meta name="dtb:depth" content="1"/>\<newline>''
     @ ''    <meta name="dtb:totalPageCount" content="0"/>\<newline>''
     @ ''    <meta name="dtb:maxPageNumber" content="0"/>\<newline>''
     @ ''  </head>\<newline>''
     @ ''  <docTitle>\<newline>''
     @ doc_title_line m
     @ ''  </docTitle>\<newline>''
     @ ''  <navMap>\<newline>''\<close>

definition getTocNcx :: "EpubMetadata \<Rightarrow> string" where
  \<open>getTocNcx m =
     ncx_head m
     @ ''    <navPoint id="navpoint-1" playOrder="1">\<newline>''
     @ ''      <navLabel>\<newline>''
     @ nav_label_line (title m)
     @ ''      </navLabel>\<newline>''
     @ ''      <content src="content.xhtml"/>\<newline>''
     @ ''    </navPoint>\<newline>''
     @ ''  </navMap>\<newline>''
     @ ''</ncx>''\<close>

definition navPoint :: "nat \<Rightarrow> Chapter \<Rightarrow> string" where
  \<open>navPoint idx chapter =
     ''    <navPoint id="navpoint-''
     @ show_nat (idx + 1)
     @ ''" playOrder="''
     @ show_nat (idx + 1)
     @ ''">\<newline>''
     @ ''      <navLabel>\<newline>''
     @ nav_label_line (ch_title chapter)
     @ ''      </navLabel>\<newline>''
     @ ''      <content src="''
     @ ch_id chapter
     @ ''.xhtml"/>\<newline>''
     @ ''    </navPoint>''\<close>

definition navPoints :: "Chapter list \<Rightarrow> string" where
  "navPoints chs = join_lines (map (\<lambda>(idx, chapter). navPoint idx chapter) (enumerate 0 chs))"

definition getMultiChapterTocNcx :: "EpubMetadata \<Rightarrow> Chapter list \<Rightarrow> string" where
  \<open>getMultiChapterTocNcx m chs =
     ncx_head m
     @ navPoints chs
     @ ''\<newline>''
     @ ''  </navMap>\<newline>''
     @ ''</ncx>''\<close>

definition xhtml_title_line :: "string \<Rightarrow> string" where
  \<open>xhtml_title_line the_title =
     ''  <title>''
     @ escapeXml the_title
     @ ''</title>\<newline>''\<close>

definition getContentXhtml :: "string \<Rightarrow> string \<Rightarrow> string" where
  \<open>getContentXhtml htmlContent the_title =
     ''<?xml version="1.0" encoding="UTF-8"?>\<newline>''
     @ ''<!DOCTYPE html>\<newline>''
     @ ''<html xmlns="http://www.w3.org/1999/xhtml" xmlns:epub="http://www.idpf.org/2007/ops">\<newline>''
     @ ''<head>\<newline>''
     @ xhtml_title_line the_title
     @ ''  <link rel="stylesheet" type="text/css" href="css/style.css"/>\<newline>''
     @ ''</head>\<newline>''
     @ ''<body>\<newline>''
     @ htmlContent
     @ ''\<newline>''
     @ ''</body>\<newline>''
     @ ''</html>''\<close>

text \<open>The stylesheet, \<open>getEpubCSS\<close> of \<open>markdown-parser.ts\<close>.\<close>

definition getEpubCSS :: "string" where
  \<open>getEpubCSS =
     ''\<newline>''
     @ ''body {\<newline>''
     @ ''  font-family: Georgia, serif;\<newline>''
     @ ''  line-height: 1.6;\<newline>''
     @ ''  margin: 1em;\<newline>''
     @ ''  color: #000;\<newline>''
     @ ''}\<newline>''
     @ ''\<newline>''
     @ ''h1, h2, h3, h4, h5, h6 {\<newline>''
     @ ''  font-family: Arial, sans-serif;\<newline>''
     @ ''  margin-top: 1em;\<newline>''
     @ ''  margin-bottom: 0.5em;\<newline>''
     @ ''  page-break-after: avoid;\<newline>''
     @ ''}\<newline>''
     @ ''\<newline>''
     @ ''h1 {\<newline>''
     @ ''  font-size: 2em;\<newline>''
     @ ''  border-bottom: 1px solid #ccc;\<newline>''
     @ ''}\<newline>''
     @ ''\<newline>''
     @ ''h2 {\<newline>''
     @ ''  font-size: 1.5em;\<newline>''
     @ ''}\<newline>''
     @ ''\<newline>''
     @ ''p {\<newline>''
     @ ''  margin: 0.5em 0;\<newline>''
     @ ''  text-align: justify;\<newline>''
     @ ''  text-indent: 1em;\<newline>''
     @ ''}\<newline>''
     @ ''\<newline>''
     @ ''p:first-of-type,\<newline>''
     @ ''h1 + p,\<newline>''
     @ ''h2 + p,\<newline>''
     @ ''h3 + p,\<newline>''
     @ ''h4 + p,\<newline>''
     @ ''h5 + p,\<newline>''
     @ ''h6 + p {\<newline>''
     @ ''  text-indent: 0;\<newline>''
     @ ''}\<newline>''
     @ ''\<newline>''
     @ ''img {\<newline>''
     @ ''  max-width: 100%;\<newline>''
     @ ''  height: auto;\<newline>''
     @ ''  display: block;\<newline>''
     @ ''  margin: 1em auto;\<newline>''
     @ ''}\<newline>''
     @ ''\<newline>''
     @ ''code {\<newline>''
     @ ''  font-family: '' @ [CHR 0x27] @ ''Courier New'' @ [CHR 0x27] @ '', monospace;\<newline>''
     @ ''  background-color: #f4f4f4;\<newline>''
     @ ''  padding: 0.2em 0.4em;\<newline>''
     @ ''  border-radius: 3px;\<newline>''
     @ ''}\<newline>''
     @ ''\<newline>''
     @ ''pre {\<newline>''
     @ ''  background-color: #f4f4f4;\<newline>''
     @ ''  padding: 1em;\<newline>''
     @ ''  overflow-x: auto;\<newline>''
     @ ''  border-radius: 5px;\<newline>''
     @ ''}\<newline>''
     @ ''\<newline>''
     @ ''pre code {\<newline>''
     @ ''  background-color: transparent;\<newline>''
     @ ''  padding: 0;\<newline>''
     @ ''}\<newline>''
     @ ''\<newline>''
     @ ''blockquote {\<newline>''
     @ ''  margin: 1em 2em;\<newline>''
     @ ''  padding-left: 1em;\<newline>''
     @ ''  border-left: 3px solid #ccc;\<newline>''
     @ ''  font-style: italic;\<newline>''
     @ ''}\<newline>''
     @ ''\<newline>''
     @ ''ul, ol {\<newline>''
     @ ''  margin: 0.5em 0;\<newline>''
     @ ''  padding-left: 2em;\<newline>''
     @ ''}\<newline>''
     @ ''\<newline>''
     @ ''table {\<newline>''
     @ ''  border-collapse: collapse;\<newline>''
     @ ''  width: 100%;\<newline>''
     @ ''  margin: 1em 0;\<newline>''
     @ ''}\<newline>''
     @ ''\<newline>''
     @ ''th, td {\<newline>''
     @ ''  border: 1px solid #ddd;\<newline>''
     @ ''  padding: 0.5em;\<newline>''
     @ ''  text-align: left;\<newline>''
     @ ''}\<newline>''
     @ ''\<newline>''
     @ ''th {\<newline>''
     @ ''  background-color: #f4f4f4;\<newline>''
     @ ''  font-weight: bold;\<newline>''
     @ ''}\<newline>''
     @ ''\<newline>''
     @ ''.footnote {\<newline>''
     @ ''  font-size: 0.9em;\<newline>''
     @ ''  margin-top: 2em;\<newline>''
     @ ''  padding-top: 0.5em;\<newline>''
     @ ''  border-top: 1px solid #ccc;\<newline>''
     @ ''}\<newline>''
     @ ''\<newline>''
     @ ''a {\<newline>''
     @ ''  color: #0066cc;\<newline>''
     @ ''  text-decoration: none;\<newline>''
     @ ''}\<newline>''
     @ ''\<newline>''
     @ ''a:hover {\<newline>''
     @ ''  text-decoration: underline;\<newline>''
     @ ''}\<newline>''\<close>

section \<open>Staging the package (\<open>createEpubStructure\<close>)\<close>

text \<open>
  The loop over the images: each image is copied or fetched inside its own
  \<open>try\<close>/\<open>catch\<close>, and the \<open>catch\<close> prints a warning and goes on.
\<close>

definition is_remote :: "ImageReference \<Rightarrow> bool" where
  "is_remote img =
     (startsWith (resolvedPath img) ''http://'' \<or> startsWith (resolvedPath img) ''https://'')"

fun copy_images :: "network \<Rightarrow> string \<Rightarrow> ImageReference list \<Rightarrow> world \<Rightarrow> world option" where
  "copy_images net tempDir [] w = Some w"
| "copy_images net tempDir (img # rest) w =
     (let destPath = path_join [tempDir, ''OEBPS'', ''images'', basename (src img)];
          warning = ''Warning: Could not process image '' @ src img @ '':''
      in if is_remote img
         then (case downloadImage net (resolvedPath img) destPath
                      (console_log (''Downloading image: '' @ src img) w) of
                 None \<Rightarrow> None
               | Some (None, w') \<Rightarrow> copy_images net tempDir rest w'
               | Some (Some err, w') \<Rightarrow> copy_images net tempDir rest (console_warn warning err w'))
         else (case copyFile (resolvedPath img) destPath w of
                 Inl err \<Rightarrow> copy_images net tempDir rest (console_warn warning err w)
               | Inr w' \<Rightarrow> copy_images net tempDir rest w'))"

definition copy_cover :: "EpubMetadata \<Rightarrow> string \<Rightarrow> world \<Rightarrow> world" where
  "copy_cover m tempDir w =
     (if truthy (cover m)
      then (let coverDest = path_join [tempDir, ''OEBPS'', ''images'', ''cover'' @ extname (the (cover m))]
            in case copyFile (the (cover m)) coverDest w of
                 Inl err \<Rightarrow> console_warn ''Warning: Could not copy cover image:'' err w
               | Inr w' \<Rightarrow> w')
      else w)"

definition structure_dirs :: "string \<Rightarrow> (world \<Rightarrow> error + world) list" where
  "structure_dirs tempDir =
     [mkdir tempDir,
      mkdir (path_join [tempDir, ''META-INF'']),
      mkdir (path_join [tempDir, ''OEBPS'']),
      mkdir (path_join [tempDir, ''OEBPS'', ''images'']),
      mkdir (path_join [tempDir, ''OEBPS'', ''css''])]"

definition write_mimetype :: "string \<Rightarrow> world \<Rightarrow> error + world" where
  "write_mimetype tempDir = writeFile (path_join [tempDir, ''mimetype'']) ''application/epub+zip''"

definition write_container :: "string \<Rightarrow> world \<Rightarrow> error + world" where
  "write_container tempDir = writeFile (path_join [tempDir, ''META-INF'', ''container.xml'']) getContainerXml"

definition write_stylesheet :: "string \<Rightarrow> world \<Rightarrow> error + world" where
  "write_stylesheet tempDir = writeFile (path_join [tempDir, ''OEBPS'', ''css'', ''style.css'']) getEpubCSS"

text \<open>
  The result of staging: \<open>None\<close> when an image fetch never settles; otherwise the error
  thrown, if any, and the world left behind. \<open>today\<close> is the date
  \<open>new Date().toISOString().split('T')[0]\<close> gives.
\<close>

definition stage_documents ::
  "string \<Rightarrow> string \<Rightarrow> string \<Rightarrow> EpubMetadata \<Rightarrow> ImageReference list \<Rightarrow> world
     \<Rightarrow> error option \<times> world" where
  \<comment> \<open>the directories and the generated files, everything before the loop over the images\<close>
  "stage_documents today tempDir htmlContent m images w =
     run_steps
       (structure_dirs tempDir @
        [write_mimetype tempDir,
         write_container tempDir,
         writeFile (path_join [tempDir, ''OEBPS'', ''content.opf'']) (getContentOpf m images today),
         writeFile (path_join [tempDir, ''OEBPS'', ''toc.ncx'']) (getTocNcx m),
         writeFile (path_join [tempDir, ''OEBPS'', ''content.xhtml''])
           (getContentXhtml htmlContent (title m)),
         write_stylesheet tempDir]) w"

definition createEpubStructure ::
  "network \<Rightarrow> string \<Rightarrow> string \<Rightarrow> string \<Rightarrow> EpubMetadata \<Rightarrow> ImageReference list \<Rightarrow> world
     \<Rightarrow> (error option \<times> world) option" where
  "createEpubStructure net today tempDir htmlContent m images w =
     (case stage_documents today tempDir htmlContent m images w of
        (Some err, w1) \<Rightarrow> Some (Some err, w1)
      | (None, w1) \<Rightarrow>
          (case copy_images net tempDir images w1 of
             None \<Rightarrow> None
           | Some w2 \<Rightarrow> Some (None, copy_cover m tempDir w2)))"



section \<open>Packing the archive (\<open>createEpubArchive\<close>)\<close>

text \<open>
  \<open>archiver('zip', { zlib: { level: 9 } })\<close>. An entry with bytes is stored without
  compression when the data given with it says \<open>store: true\<close>, or when the archive's level
  is 0; otherwise it is deflated.
\<close>

definition archive_method :: "nat \<Rightarrow> bool option \<Rightarrow> compression" where
  "archive_method level store =
     (if store = Some True \<or> level = 0 then Stored else Deflated)"

definition read_stream :: "world \<Rightarrow> string \<Rightarrow> error + content" where
  "read_stream w p =
     (let k = resolve p
      in if k \<in> faults w then Inl (EACCES p)
         else (case read_file w k of None \<Rightarrow> Inl (ENOENT p) | Some c \<Rightarrow> Inr c))"

text \<open>
  \<open>archive.directory(dirpath, destpath)\<close> walks \<open>dirpath\<close>: every file below it becomes an
  entry named by \<open>destpath\<close> and the file's path below \<open>dirpath\<close>, with no per-entry data,
  and every directory below it becomes an entry of its own, its name ending in a slash.
  A directory entry has no bytes, and an entry without bytes is stored. A \<open>dirpath\<close> that
  does not exist adds nothing and is no error; an entry the operating system refuses is
  an error of the archive. The walk meets the entries in the file system's order; here
  the files come first.
\<close>

definition directory_entries :: "world \<Rightarrow> string \<Rightarrow> string \<Rightarrow> error + entry list" where
  "directory_entries w dirpath destpath =
     (let d = resolve dirpath;
          found = filter (\<lambda>(k, c). under d k) (files w);
          below = filter (\<lambda>k. under d k \<and> k \<noteq> d) (dirs w)
      in if d \<in> faults w \<or> list_ex (\<lambda>(k, c). k \<in> faults w) found \<or> list_ex (\<lambda>k. k \<in> faults w) below
         then Inl (EACCES dirpath)
         else if \<not> dir_exists w d then Inr []
         else Inr (map (\<lambda>(k, c). Entry (join_str ''/'' (destpath # drop (length d) k)) c
                                   (archive_method 9 None)) found
                   @ map (\<lambda>k. Entry (join_str ''/'' (destpath # drop (length d) k) @ ''/'')
                                  (Bytes []) Stored) below))"

text \<open>
  The promise resolves on the output stream's \<open>close\<close> and rejects on the archive's
  \<open>error\<close>. A stream that cannot be opened emits an error and then closes. For the output
  stream that resolves the promise, with nothing written. The read stream of the
  mimetype file has no listener for its error, and the process ends on it: the call
  does not return, which is the result \<open>None\<close>. The mimetype entry is appended first, with
  \<open>{ name: 'mimetype' }\<close> as its only data; the two directories follow.
\<close>

definition createEpubArchive :: "string \<Rightarrow> string \<Rightarrow> world \<Rightarrow> (error option \<times> world) option" where
  "createEpubArchive tempDir outputPath w =
     (let opened = write_content outputPath (Zip []) w;
          w0 = (case opened of Inl err \<Rightarrow> w | Inr v \<Rightarrow> v)
      in case read_stream w0 (path_join [tempDir, ''mimetype'']) of
           Inl err \<Rightarrow> None
         | Inr c \<Rightarrow>
             (case opened of
                Inl err \<Rightarrow> Some (None, w)
              | Inr v \<Rightarrow>
                  (let first = [Entry ''mimetype'' c (archive_method 9 None)];
                       out = resolve outputPath
                   in case directory_entries w0 (path_join [tempDir, ''META-INF'']) ''META-INF'' of
                        Inl err \<Rightarrow> Some (Some err, put_file out (Zip first) w0)
                      | Inr es1 \<Rightarrow>
                          (case directory_entries w0 (path_join [tempDir, ''OEBPS'']) ''OEBPS'' of
                             Inl err \<Rightarrow> Some (Some err, put_file out (Zip (first @ es1)) w0)
                           | Inr es2 \<Rightarrow> Some (None, put_file out (Zip (first @ es1 @ es2)) w0)))))"

section \<open>The two generators (\<open>generateEpub\<close>, \<open>generateMultiChapterEpub\<close>)\<close>

text \<open>
  \<open>try { stage; pack; rm } catch (error) { rm.catch(() => {}); throw error }\<close>. An error
  of staging or packing is thrown again after a removal whose own error is dropped. An
  error of the removal on the success path is caught like the others: the removal is
  tried once more and its first error is thrown. \<open>uuid\<close> is the value \<open>uuidv4()\<close> returns
  for the staging directory's name. The result \<open>None\<close> is a call that does not return.
\<close>

definition staging_dir :: "string \<Rightarrow> string \<Rightarrow> string" where
  "staging_dir outputPath uuid = path_join [dirname outputPath, ''.epub-temp-'' @ uuid]"

definition pack_and_clean ::
  "string \<Rightarrow> string \<Rightarrow> (error option \<times> world) option \<Rightarrow> (error option \<times> world) option" where
  "pack_and_clean tempDir outputPath staged =
     (case staged of
        None \<Rightarrow> None
      | Some (Some err, w1) \<Rightarrow> Some (Some err, snd (rm tempDir w1))
      | Some (None, w1) \<Rightarrow>
          (case createEpubArchive tempDir outputPath w1 of
             None \<Rightarrow> None
           | Some (Some err, w2) \<Rightarrow> Some (Some err, snd (rm tempDir w2))
           | Some (None, w2) \<Rightarrow>
               (case rm tempDir w2 of
                  (None, w3) \<Rightarrow> Some (None, w3)
                | (Some err, w3) \<Rightarrow> Some (Some err, snd (rm tempDir w3)))))"

definition generateEpub ::
  "network \<Rightarrow> string \<Rightarrow> string \<Rightarrow> string \<Rightarrow> EpubMetadata \<Rightarrow> ImageReference list \<Rightarrow> string \<Rightarrow> world
     \<Rightarrow> (error option \<times> world) option" where
  "generateEpub net uuid today htmlContent m images outputPath w =
     (let tempDir = staging_dir outputPath uuid
      in pack_and_clean tempDir outputPath
           (createEpubStructure net today tempDir htmlContent m images w))"


section \<open>The parser (\<open>markdown-parser.ts\<close>)\<close>

text \<open>
  A character here is one code unit below 256. \<open>is_space\<close> is the class \<open>\s\<close> of a regular
  expression on such characters, which is also what \<open>String.prototype.trim\<close> removes, and
  \<open>is_line_terminator\<close> is what \<open>.\<close> does not match and where \<open>^\<close> and \<open>$\<close> match under the
  flag \<open>m\<close>.
\<close>

definition is_space :: "char \<Rightarrow> bool" where
  "is_space c =
     (c \<in> set [CHR 0x09, CHR 0x0A, CHR 0x0B, CHR 0x0C, CHR 0x0D, CHR 0x20, CHR 0xA0])"

definition is_line_terminator :: "char \<Rightarrow> bool" where
  "is_line_terminator c = (c = CHR 0x0A \<or> c = CHR 0x0D)"

definition trim :: "string \<Rightarrow> string" where
  "trim s = rev (dropWhile is_space (rev (dropWhile is_space s)))"

definition escapeHtml_char :: "char \<Rightarrow> string" where
  \<open>escapeHtml_char c =
     (if c = CHR ''&'' then ''&amp;''
      else if c = CHR ''<'' then ''&lt;''
      else if c = CHR ''>'' then ''&gt;''
      else if c = CHR ''"'' then ''&quot;''
      else if c = CHR 0x27 then ''&#039;''
      else [c])\<close>

definition escapeHtml :: "string \<Rightarrow> string" where
  "escapeHtml text = concat (map escapeHtml_char text)"

subsection \<open>The two footnote extensions of \<open>configureMarked\<close>\<close>

text \<open>
  Both tokenizers start with \<open>\[\^([^\]]+)\]\<close>: the two characters \<open>[^\<close>, then the longest
  run of characters other than \<open>]\<close>, which must not be empty, then \<open>]\<close>. A shorter run is
  never followed by \<open>]\<close>, so backtracking finds no other match. \<open>marker\<close> gives the run
  and the text after the closing bracket.
\<close>

definition marker :: "string \<Rightarrow> (string \<times> string) option" where
  "marker s =
     (case s of
        a # b # r \<Rightarrow>
          if a = CHR ''['' \<and> b = CHR ''^'' then
            (let ident = takeWhile (\<lambda>c. c \<noteq> CHR '']'') r;
                 rest = dropWhile (\<lambda>c. c \<noteq> CHR '']'') r
             in if ident = [] \<or> rest = [] then None else Some (ident, tl rest))
          else None
      | _ \<Rightarrow> None)"

record ref_token =
  ref_raw :: string
  ref_id :: string

text \<open>\<open>footnoteRefExtension.tokenizer\<close>: \<open>/^\[\^([^\]]+)\](?!:)/\<close>\<close>

definition footnoteRef_tokenizer :: "string \<Rightarrow> ref_token option" where
  "footnoteRef_tokenizer s =
     (case marker s of
        None \<Rightarrow> None
      | Some (ident, after) \<Rightarrow>
          if startsWith after '':'' then None
          else Some \<lparr> ref_raw = ''[^'' @ ident @ '']'', ref_id = ident \<rparr>)"

text \<open>
  \<open>footnoteRefExtension.start\<close>: the index of the first match of \<open>/\[\^[^\]]+\](?!:)/\<close>,
  which is the first index where the tokenizer matches.
\<close>

fun footnoteRef_start :: "string \<Rightarrow> nat option" where
  "footnoteRef_start [] = None"
| "footnoteRef_start (c # cs) =
     (if footnoteRef_tokenizer (c # cs) \<noteq> None then Some 0
      else map_option Suc (footnoteRef_start cs))"

definition footnoteRef_renderer :: "ref_token \<Rightarrow> string" where
  \<open>footnoteRef_renderer t =
     ''<sup><a href="#fn-'' @ ref_id t @ ''" id="ref-'' @ ref_id t @ ''">'' @ ref_id t
     @ ''</a></sup>''\<close>

record footnote_token =
  fn_raw :: string
  fn_id :: string
  fn_text :: string

text \<open>
  \<open>footnoteExtension.tokenizer\<close>: \<open>/^\[\^([^\]]+)\]:\s*(.+?)(?=\n\n|\n\[\^|$)/s\<close>. After the
  colon \<open>\s*\<close> takes the whole run of white space. With the flag \<open>s\<close> the lazy \<open>.+?\<close> then
  takes one character, whatever it is, and goes on one character at a time until the
  rest is empty, or starts with an empty line, or with a line that starts with \<open>[^\<close>
  (\<open>lazy_text\<close>). When nothing follows the white space, \<open>\s*\<close> gives its last character
  back to \<open>.+?\<close>.
\<close>

definition stops_here :: "string \<Rightarrow> bool" where
  \<open>stops_here s = (s = [] \<or> startsWith s ''\<newline>\<newline>'' \<or> startsWith s ''\<newline>[^'')\<close>

fun lazy_text :: "string \<Rightarrow> string" where
  "lazy_text [] = []"
| "lazy_text (c # cs) = c # (if stops_here cs then [] else lazy_text cs)"

definition footnote_tokenizer :: "string \<Rightarrow> footnote_token option" where
  "footnote_tokenizer s =
     (case marker s of
        None \<Rightarrow> None
      | Some (ident, after) \<Rightarrow>
          if startsWith after '':'' then
            (let spaces = takeWhile is_space (tl after);
                 body = dropWhile is_space (tl after)
             in if body \<noteq> [] then
                  Some \<lparr> fn_raw = ''[^'' @ ident @ '']:'' @ spaces @ lazy_text body,
                         fn_id = ident,
                         fn_text = trim (lazy_text body) \<rparr>
                else if spaces \<noteq> [] then
                  Some \<lparr> fn_raw = ''[^'' @ ident @ '']:'' @ spaces,
                         fn_id = ident,
                         fn_text = trim [last spaces] \<rparr>
                else None)
          else None)"

text \<open>\<open>footnoteExtension.start\<close>: \<open>/^\[\^[^\]]+\]:/\<close> matches at index 0 or not at all.\<close>

definition footnote_start :: "string \<Rightarrow> nat option" where
  "footnote_start s =
     (case marker s of
        None \<Rightarrow> None
      | Some (ident, after) \<Rightarrow> if startsWith after '':'' then Some 0 else None)"

definition footnote_renderer :: "footnote_token \<Rightarrow> string" where
  \<open>footnote_renderer t =
     ''<div class="footnote" id="fn-'' @ fn_id t @ ''">\<newline>''
     @ ''        <sup>'' @ fn_id t @ ''</sup> '' @ fn_text t @ ''\<newline>''
     @ ''      </div>\<newline>''\<close>

subsection \<open>\<open>extractTitle\<close>\<close>

text \<open>
  \<open>/^#\s+(.+)$/m\<close> is tried at the start of the text and after every line terminator, and
  the first position that matches gives the title. At such a position, after \<open>#\<close>, the
  run of white space must not be empty. When a character follows the run, the title is
  the rest of that line. When the text ends with the run, \<open>\s+\<close> gives characters back
  until \<open>.+\<close> has one that is no line terminator: the title is the last such character of
  the run, the first character of the run apart.
\<close>

definition heading_at :: "string \<Rightarrow> string option" where
  "heading_at s =
     (case s of
        [] \<Rightarrow> None
      | c # r \<Rightarrow>
          if c = CHR ''#'' then
            (let spaces = takeWhile is_space r;
                 body = dropWhile is_space r
             in if spaces = [] then None
                else if body \<noteq> [] then Some (takeWhile (\<lambda>x. \<not> is_line_terminator x) body)
                else (case dropWhile is_line_terminator (rev (tl spaces)) of
                        [] \<Rightarrow> None
                      | x # xs \<Rightarrow> Some [x]))
          else None)"

fun first_heading :: "bool \<Rightarrow> string \<Rightarrow> string option" where
  "first_heading at_line_start [] = None"
| "first_heading at_line_start (c # cs) =
     (case (if at_line_start then heading_at (c # cs) else None) of
        Some t \<Rightarrow> Some t
      | None \<Rightarrow> first_heading (is_line_terminator c) cs)"

definition extractTitle :: "string \<Rightarrow> string option" where
  "extractTitle markdownText = first_heading True markdownText"

subsection \<open>The module's variables and the libraries it calls\<close>

text \<open>
  \<open>marked\<close> splits the text into tokens and renders each in turn, and the document is
  the renderings in that order. A \<open>node\<close> is a token as far as this module is concerned:
  an image, which \<open>marked\<close> renders by calling \<open>customImageRenderer\<close>; a footnote or a
  footnote reference, which are the tokens of the two extensions above and go to their
  renderers; and everything else, which \<open>marked\<close> renders by itself to the text the node
  carries. The libraries are parameters: \<open>marked_lex\<close> is the tokens \<open>marked\<close> finds in a
  text, or \<open>None\<close> when it throws; \<open>mime_lookup\<close> is \<open>mime.lookup\<close>, with \<open>None\<close> for \<open>false\<close>;
  \<open>path_resolve\<close> is \<open>path.resolve\<close> of two arguments; \<open>uuidv4 n\<close> is what the call number
  \<open>n\<close> of \<open>uuidv4()\<close> returns.
\<close>

datatype node =
    HtmlNode string
  | ImageNode string "string option" string
  | FootnoteNode string string
  | FootnoteRefNode string

record libs =
  marked_lex :: "string \<Rightarrow> node list option"
  mime_lookup :: "string \<Rightarrow> string option"
  path_resolve :: "string \<Rightarrow> string \<Rightarrow> string"
  uuidv4 :: "nat \<Rightarrow> string"

text \<open>
  The variables of the module. \<open>parsedImages\<close> holds a reference to an array, and the result
  of \<open>parseMarkdown\<close> holds the same reference, so the arrays are kept in a store by
  address: \<open>arrays\<close> gives the elements of each, and \<open>allocated\<close> is the number of arrays
  created so far and the address of the next. The extensions and renderers handed to
  \<open>marked.use\<close> are counted, and so are the calls of \<open>uuidv4()\<close>.
\<close>

record parser =
  arrays :: "nat \<Rightarrow> ImageReference list"
  allocated :: nat
  parsedImages :: nat
  currentBaseDir :: string
  markedConfigured :: bool
  extensions_used :: nat
  renderers_used :: nat
  uuids_drawn :: nat

definition module_loaded :: parser where
  \<comment> \<open>\<open>let parsedImages = []; let currentBaseDir = ''; let markedConfigured = false;\<close>\<close>
  "module_loaded =
     \<lparr> arrays = (\<lambda>a. []), allocated = 1, parsedImages = 0, currentBaseDir = [],
       markedConfigured = False, extensions_used = 0, renderers_used = 0, uuids_drawn = 0 \<rparr>"

definition configureMarked :: "parser \<Rightarrow> parser" where
  "configureMarked p =
     (if markedConfigured p then p
      else p\<lparr> extensions_used := extensions_used p + 2, markedConfigured := True \<rparr>)"

definition image_reference :: "libs \<Rightarrow> string \<Rightarrow> nat \<Rightarrow> string \<Rightarrow> ImageReference" where
  \<comment> \<open>the element \<open>customImageRenderer\<close> pushes for \<open>href\<close>\<close>
  "image_reference L baseDir n href =
     \<lparr> src = href,
       resolvedPath =
         (if \<not> startsWith href ''http://'' \<and> \<not> startsWith href ''https://''
          then path_resolve L baseDir href else href),
       mediaType = js_or (mime_lookup L href) ''image/jpeg'',
       img_id = ''img-'' @ uuidv4 L n \<rparr>"

definition image_tag :: "string \<Rightarrow> string option \<Rightarrow> string \<Rightarrow> string" where
  \<open>image_tag href title_opt text =
     (let titleAttr = (if truthy title_opt then '' title="'' @ escapeHtml (the title_opt) @ ''"'' else []);
          altAttr = '' alt="'' @ escapeHtml text @ ''"''
      in ''<img src="images/'' @ basename href @ ''"'' @ altAttr @ titleAttr @ '' />'')\<close>

definition customImageRenderer ::
  "libs \<Rightarrow> string \<Rightarrow> string option \<Rightarrow> string \<Rightarrow> parser \<Rightarrow> string \<times> parser" where
  "customImageRenderer L href title_opt text p =
     (let pushed = arrays p (parsedImages p)
                     @ [image_reference L (currentBaseDir p) (uuids_drawn p) href]
      in (image_tag href title_opt text,
          p\<lparr> arrays := (arrays p)(parsedImages p := pushed),
             uuids_drawn := uuids_drawn p + 1 \<rparr>))"

fun render_nodes :: "libs \<Rightarrow> node list \<Rightarrow> parser \<Rightarrow> string \<times> parser" where
  "render_nodes L [] p = ([], p)"
| "render_nodes L (HtmlNode h # ns) p =
     (let (rest, p') = render_nodes L ns p in (h @ rest, p'))"
| "render_nodes L (ImageNode href title_opt text # ns) p =
     (let (h, p1) = customImageRenderer L href title_opt text p;
          (rest, p2) = render_nodes L ns p1
      in (h @ rest, p2))"
| "render_nodes L (FootnoteNode ident text # ns) p =
     (let (rest, p') = render_nodes L ns p
      in (footnote_renderer \<lparr> fn_raw = [], fn_id = ident, fn_text = text \<rparr> @ rest, p'))"
| "render_nodes L (FootnoteRefNode ident # ns) p =
     (let (rest, p') = render_nodes L ns p
      in (footnoteRef_renderer \<lparr> ref_raw = [], ref_id = ident \<rparr> @ rest, p'))"

text \<open>
  The result of \<open>parseMarkdown\<close>. Its \<open>images\<close> are the array the variable refers to when
  the call returns: a reference, not a copy.
\<close>

record ParsedDocument =
  pd_html :: string
  pd_images :: nat
  pd_title :: "string option"

definition content_of :: "parser \<Rightarrow> ParsedDocument \<Rightarrow> MarkdownContent" where
  \<comment> \<open>what a caller reads in the result when the module is in state \<open>p\<close>\<close>
  "content_of p d =
     \<lparr> md_html = pd_html d, md_images = arrays p (pd_images d), md_title = pd_title d \<rparr>"

text \<open>
  \<open>parseMarkdown\<close>. \<open>file\<close> is what \<open>fs.promises.readFile(filePath, 'utf-8')\<close> answered: when
  it threw, nothing has been assigned yet. The call returns its result and the state it
  leaves the module in.
\<close>

definition parseMarkdown ::
  "libs \<Rightarrow> error + string \<Rightarrow> string \<Rightarrow> parser \<Rightarrow> (error + ParsedDocument) \<times> parser" where
  "parseMarkdown L file filePath p =
     (case file of
        Inl e \<Rightarrow> (Inl e, p)
      | Inr markdownText \<Rightarrow>
          (let baseDir = dirname filePath;
               p1 = p\<lparr> arrays := (arrays p)(allocated p := []),
                       parsedImages := allocated p,
                       allocated := allocated p + 1 \<rparr>;
               p2 = p1\<lparr> currentBaseDir := baseDir \<rparr>;
               p3 = configureMarked p2;
               p4 = p3\<lparr> renderers_used := renderers_used p3 + 1 \<rparr>
           in case marked_lex L markdownText of
                None \<Rightarrow> (Inl ParseError, p4)
              | Some nodes \<Rightarrow>
                  (let (html, p5) = render_nodes L nodes p4;
                       the_title = extractTitle markdownText
                   in (Inr \<lparr> pd_html = html, pd_images = parsedImages p5, pd_title = the_title \<rparr>,
                       p5))))"

subsection \<open>\<open>marked\<close> on paragraphs of words and footnotes\<close>

text \<open>
  What \<open>marked\<close>, with the two extensions, does with a text of a small shape, for the
  examples below: letters, single line feeds and spaces, and the characters of footnote
  markers, where no line starts or ends with a space (\<open>in_fragment\<close>). On any other text
  \<open>fragment_lex\<close> answers \<open>None\<close>.

  At the start of each block \<open>marked\<close> first asks the tokenizer of the block extension. If
  that finds nothing, empty lines are skipped, and a line of text followed by an empty
  line or by the end of the text is a paragraph, rendered between \<open><p>\<close> and \<open></p>\<close>
  and a line feed. Inside a paragraph \<open>marked\<close> asks the tokenizer of the inline extension
  at each position it reaches, and a letter or a space is rendered as itself.
\<close>

definition is_letter :: "char \<Rightarrow> bool" where
  "is_letter c = (c \<in> set ''abcdefghijklmnopqrstuvwxyzABCDEFGHIJKLMNOPQRSTUVWXYZ'')"

definition is_lf :: "char \<Rightarrow> bool" where
  "is_lf c = (c = CHR 0x0A)"

definition in_fragment :: "string \<Rightarrow> bool" where
  \<open>in_fragment s =
     (list_all (\<lambda>c. is_letter c \<or> c \<in> set '' \<newline>[^]:'') s
      \<and> \<not> startsWith s '' '' \<and> \<not> startsWith (rev s) '' ''
      \<and> \<not> includes_str s '' \<newline>'' \<and> \<not> includes_str s ''\<newline> '')\<close>

function inline_nodes :: "string \<Rightarrow> node list option" where
  "inline_nodes s =
     (if s = [] then Some []
      else case footnoteRef_tokenizer s of
             Some t \<Rightarrow>
               map_option ((#) (FootnoteRefNode (ref_id t)))
                 (inline_nodes (drop (length (ref_raw t)) s))
           | None \<Rightarrow>
               if is_letter (hd s) \<or> hd s = CHR '' ''
               then map_option ((#) (HtmlNode [hd s])) (inline_nodes (tl s))
               else None)"
  by pat_completeness auto
termination
proof (relation "measure length")
  show "wf (measure length)" by simp
next
  fix s :: string and t
  assume s: "s \<noteq> []" and t: "footnoteRef_tokenizer s = Some t"
  from t have "ref_raw t \<noteq> []"
    unfolding footnoteRef_tokenizer_def by (auto split: option.splits prod.splits if_splits)
  with s show "(drop (length (ref_raw t)) s, s) \<in> measure length"
    by (cases s; cases "ref_raw t") simp_all
next
  fix s :: string
  assume "s \<noteq> []"
  then show "(tl s, s) \<in> measure length" by (cases s) simp_all
qed

declare inline_nodes.simps [simp del]

function block_nodes :: "string \<Rightarrow> node list option" where
  \<open>block_nodes s =
     (if s = [] then Some []
      else case footnote_tokenizer s of
             Some t \<Rightarrow>
               map_option ((#) (FootnoteNode (fn_id t) (fn_text t)))
                 (block_nodes (drop (length (fn_raw t)) s))
           | None \<Rightarrow>
               if is_lf (hd s) then block_nodes (dropWhile is_lf s)
               else
                 (let line = takeWhile (\<lambda>c. \<not> is_lf c) s;
                      rest = dropWhile (\<lambda>c. \<not> is_lf c) s
                  in if rest = [] \<or> startsWith rest ''\<newline>\<newline>'' then
                       (case inline_nodes line of
                          None \<Rightarrow> None
                        | Some ns \<Rightarrow>
                            map_option (\<lambda>more. HtmlNode ''<p>'' # ns @ HtmlNode ''</p>\<newline>'' # more)
                              (block_nodes (dropWhile is_lf rest)))
                     else None))\<close>
  by pat_completeness auto
termination
proof (relation "measure length")
  show "wf (measure length)" by simp
next
  fix s :: string and t
  assume s: "s \<noteq> []" and t: "footnote_tokenizer s = Some t"
  from t have "fn_raw t \<noteq> []"
    unfolding footnote_tokenizer_def Let_def by (auto split: option.splits prod.splits if_splits)
  with s show "(drop (length (fn_raw t)) s, s) \<in> measure length"
    by (cases s; cases "fn_raw t") simp_all
next
  fix s :: string
  assume "s \<noteq> []" and "is_lf (hd s)"
  then have "length (dropWhile is_lf s) < length s"
    by (cases s) (simp_all add: length_dropWhile_le less_Suc_eq_le)
  then show "(dropWhile is_lf s, s) \<in> measure length" by simp
next
  fix s :: string and line rest ns
  assume s: "s \<noteq> []" and nl: "\<not> is_lf (hd s)" and rest: "rest = dropWhile (\<lambda>c. \<not> is_lf c) s"
  from s nl have "length (dropWhile (\<lambda>c. \<not> is_lf c) s) < length s"
    by (cases s) (simp_all add: length_dropWhile_le less_Suc_eq_le)
  moreover have "length (dropWhile is_lf rest) \<le> length rest" by (rule length_dropWhile_le)
  ultimately show "(dropWhile is_lf rest, s) \<in> measure length" using rest by simp
qed

declare block_nodes.simps [simp del]

definition fragment_lex :: "string \<Rightarrow> node list option" where
  "fragment_lex s = (if in_fragment s then block_nodes s else None)"

section \<open>The converter (\<open>converter.ts\<close>)\<close>

text \<open>
  The metadata block both converters build. \<open>uuid\<close> is the value \<open>uuidv4()\<close> returns and
  \<open>today\<close> the date part of \<open>new Date().toISOString()\<close>.
\<close>

definition prepare_metadata :: "Config option \<Rightarrow> string \<Rightarrow> string \<Rightarrow> string \<Rightarrow> EpubMetadata" where
  "prepare_metadata config the_title uuid today =
     \<lparr> title = the_title,
       author = js_or (cfg config cfg_author) ''Unknown Author'',
       language = js_or (cfg config cfg_language) ''en'',
       publisher = cfg config cfg_publisher,
       description = cfg config cfg_description,
       rights = Some (js_or (cfg config cfg_rights) ''All rights reserved''),
       identifier = js_or (cfg config cfg_identifier) (''urn:uuid:'' @ uuid),
       cover = cfg config cfg_cover,
       createdDate = today \<rparr>"

text \<open>
  Single-document mode, \<open>convertMarkdownToEpub\<close>: the title is
  \<open>config?.title || title || path.basename(inputPath, path.extname(inputPath))\<close>, where
  \<open>title\<close> is the one \<open>parseMarkdown\<close> extracted.
\<close>

definition single_title :: "Config option \<Rightarrow> MarkdownContent \<Rightarrow> string \<Rightarrow> string" where
  "single_title config parsed inputPath =
     js_or (cfg config cfg_title) (js_or (md_title parsed) (basename_noext inputPath))"

definition single_metadata ::
  "Config option \<Rightarrow> MarkdownContent \<Rightarrow> string \<Rightarrow> string \<Rightarrow> string \<Rightarrow> EpubMetadata" where
  "single_metadata config parsed inputPath uuid today =
     prepare_metadata config (single_title config parsed inputPath) uuid today"

text \<open>
  Chapter mode, \<open>convertMarkdownFilesToChapters\<close>. The loop parses each input in turn and
  reads the parse result before the next parse starts, so the model takes the inputs
  paired with their parse results. Its state is the three accumulators of the source.
\<close>

record conv_state =
  chapters :: "Chapter list"
  allImages :: "ImageReference list"
  seenImages :: "string set"

fun collect_unique :: "ImageReference list \<Rightarrow> conv_state \<Rightarrow> conv_state" where
  "collect_unique [] st = st"
| "collect_unique (img # rest) st =
     (let imageKey = basename (src img)
      in if imageKey \<notin> seenImages st
         then collect_unique rest
                (st\<lparr> seenImages := insert imageKey (seenImages st),
                     allImages := allImages st @ [img] \<rparr>)
         else collect_unique rest st)"

definition chapter_title :: "MarkdownContent \<Rightarrow> string \<Rightarrow> string" where
  \<comment> \<open>\<open>title || path.basename(inputPath, path.extname(inputPath))\<close>\<close>
  "chapter_title parsed inputPath = js_or (md_title parsed) (basename_noext inputPath)"

fun parse_loop :: "nat \<Rightarrow> (string \<times> MarkdownContent) list \<Rightarrow> conv_state \<Rightarrow> conv_state" where
  "parse_loop i [] st = st"
| "parse_loop i ((inputPath, parsed) # rest) st =
     (let chapter = \<lparr> ch_title = chapter_title parsed inputPath,
                       ch_html = md_html parsed,
                       ch_id = ''chapter-'' @ show_nat (i + 1),
                       ch_order = i + 1 \<rparr>;
          st1 = st\<lparr> chapters := chapters st @ [chapter] \<rparr>
      in parse_loop (i + 1) rest (collect_unique (md_images parsed) st1))"

definition init_conv :: conv_state where
  "init_conv = \<lparr> chapters = [], allImages = [], seenImages = {} \<rparr>"

definition book_title :: "Config option \<Rightarrow> string list \<Rightarrow> string" where
  \<comment> \<open>\<open>config?.title || path.basename(inputPaths[0], path.extname(inputPaths[0]))\<close>\<close>
  "book_title config inputPaths = js_or (cfg config cfg_title) (basename_noext (hd inputPaths))"

text \<open>
  What \<open>convertMarkdownFilesToChapters\<close> hands to \<open>generateMultiChapterEpub\<close>: the
  chapters, the metadata and the aggregated images. An empty input list throws before
  anything is parsed.
\<close>

definition chapters_input ::
  "(string \<times> MarkdownContent) list \<Rightarrow> Config option \<Rightarrow> string \<Rightarrow> string
     \<Rightarrow> error + (Chapter list \<times> EpubMetadata \<times> ImageReference list)" where
  "chapters_input inputs config uuid today =
     (if length inputs = 0 then Inl NoInputFiles
      else let st = parse_loop 0 inputs init_conv;
               bookTitle = book_title config (map fst inputs)
           in Inr (chapters st, prepare_metadata config bookTitle uuid today, allImages st))"

section \<open>Specification-level definitions and examples\<close>


text \<open>A running example: two chapters that both reference a \<open>pic.png\<close>.\<close>

definition example_inputs :: "(string \<times> MarkdownContent) list" where
  "example_inputs =
     [(''/book/ch1.md'',
       \<lparr> md_html = ''<p>one</p>'',
         md_images = [\<lparr> src = ''a/pic.png'', resolvedPath = ''/book/a/pic.png'',
                        mediaType = ''image/png'', img_id = ''img-1'' \<rparr>],
         md_title = Some ''One'' \<rparr>),
      (''/book/ch2.md'',
       \<lparr> md_html = ''<p>two</p>'',
         md_images = [\<lparr> src = ''b/pic.png'', resolvedPath = ''/book/b/pic.png'',
                        mediaType = ''image/png'', img_id = ''img-2'' \<rparr>,
                      \<lparr> src = ''b/map.gif'', resolvedPath = ''/book/b/map.gif'',
                        mediaType = ''image/gif'', img_id = ''img-3'' \<rparr>],
         md_title = None \<rparr>)]"

text \<open>A metadata block and an image list in which two references share the basename \<open>pic.png\<close>.\<close>

definition example_metadata :: EpubMetadata where
  "example_metadata =
     \<lparr> title = ''T'', author = ''A'', language = ''en'', publisher = None,
       description = None, rights = Some ''All rights reserved'', identifier = ''id-1'',
       cover = None, createdDate = ''2025-01-01'' \<rparr>"

definition duplicate_images :: "ImageReference list" where
  "duplicate_images =
     [\<lparr> src = ''a/pic.png'', resolvedPath = ''/book/a/pic.png'',
        mediaType = ''image/png'', img_id = ''img-1'' \<rparr>,
      \<lparr> src = ''b/pic.png'', resolvedPath = ''/book/b/pic.png'',
        mediaType = ''image/png'', img_id = ''img-2'' \<rparr>]"

definition example_config :: Config where
  "example_config =
     \<lparr> cfg_author = None, cfg_language = None, cfg_publisher = None, cfg_cover = None,
       cfg_outputDir = None, cfg_title = Some ''Book'', cfg_description = None,
       cfg_rights = None, cfg_identifier = None \<rparr>"

text \<open>
  A world with one directory, \<open>/out\<close>, and no file; and a network on which every
  request fails.
\<close>

definition example_world :: world where
  "example_world = \<lparr> files = [], dirs = [[[], ''out'']], faults = {}, console = [] \<rparr>"

definition offline :: network where
  "offline secure url = NetError ''offline''"

text \<open>
  Two networks: on the first, \<open>http://h/a.png\<close> redirects to \<open>https://h/b.png\<close>, which
  answers 200; on the second every request is answered 204 (No Content).
\<close>

definition redirecting :: network where
  "redirecting secure url =
     (if url = ''http://h/a.png'' \<and> \<not> secure then Response 302 (Some ''https://h/b.png'') []
      else if url = ''https://h/b.png'' \<and> secure then Response 200 None ''PNG''
      else NetError ''unreachable'')"

definition no_content :: network where
  "no_content secure url = Response 204 None []"


text \<open>The example world, with every access to the staged package document refused.\<close>

definition faulty_world :: world where
  "faulty_world =
     example_world\<lparr> faults := {[[], ''out'', ''.epub-temp-u1'', ''OEBPS'', ''content.opf'']} \<rparr>"

text \<open>One reference to a local image; the example world has no such file.\<close>

definition missing_images :: "ImageReference list" where
  "missing_images =
     [\<lparr> src = ''pics/missing.png'', resolvedPath = ''/book/pics/missing.png'',
        mediaType = ''image/png'', img_id = ''img-1'' \<rparr>]"

text \<open>
  The images of one input: the elements \<open>customImageRenderer\<close> builds for the image tokens
  of the text, in their order, in base directory \<open>baseDir\<close>, when \<open>n\<close> calls of \<open>uuidv4()\<close>
  came before. \<open>node_html\<close> is the rendering of one token.
\<close>

fun own_images :: "libs \<Rightarrow> string \<Rightarrow> nat \<Rightarrow> node list \<Rightarrow> ImageReference list" where
  "own_images L baseDir n [] = []"
| "own_images L baseDir n (ImageNode href title_opt text # ns) =
     image_reference L baseDir n href # own_images L baseDir (n + 1) ns"
| "own_images L baseDir n (HtmlNode h # ns) = own_images L baseDir n ns"
| "own_images L baseDir n (FootnoteNode ident text # ns) = own_images L baseDir n ns"
| "own_images L baseDir n (FootnoteRefNode ident # ns) = own_images L baseDir n ns"

fun node_html :: "node \<Rightarrow> string" where
  "node_html (HtmlNode h) = h"
| "node_html (ImageNode href title_opt text) = image_tag href title_opt text"
| "node_html (FootnoteNode ident text) =
     footnote_renderer \<lparr> fn_raw = [], fn_id = ident, fn_text = text \<rparr>"
| "node_html (FootnoteRefNode ident) = footnoteRef_renderer \<lparr> ref_raw = [], ref_id = ident \<rparr>"

text \<open>
  Libraries for the examples: \<open>marked\<close> on a paragraph that is one image, and on the
  fragment above; \<open>mime.lookup\<close> on three extensions; \<open>path.resolve\<close> in the working
  directory \<open>/work\<close>, for a relative base directory; and \<open>uuidv4()\<close> counting its calls.
\<close>

definition example_marked :: "string \<Rightarrow> node list option" where
  \<open>example_marked s =
     (if s = ''![a](a.png)''
      then Some [HtmlNode ''<p>'', ImageNode ''a.png'' None ''a'', HtmlNode ''</p>\<newline>'']
      else if s = ''![b](b.jpg)''
      then Some [HtmlNode ''<p>'', ImageNode ''b.jpg'' None ''b'', HtmlNode ''</p>\<newline>'']
      else fragment_lex s)\<close>

definition example_mime :: "string \<Rightarrow> string option" where
  "example_mime href =
     (if extname href = ''.png'' then Some ''image/png''
      else if extname href = ''.jpg'' then Some ''image/jpeg''
      else if extname href = ''.gif'' then Some ''image/gif''
      else None)"

definition example_libs :: libs where
  "example_libs =
     \<lparr> marked_lex = example_marked,
       mime_lookup = example_mime,
       path_resolve = (\<lambda>base href. ''/work/'' @ base @ ''/'' @ href),
       uuidv4 = (\<lambda>n. ''uuid-'' @ show_nat n) \<rparr>"

definition first_call :: "(error + ParsedDocument) \<times> parser" where
  "first_call = parseMarkdown example_libs (Inr ''![a](a.png)'') ''docs/one.md'' module_loaded"

definition second_call :: "(error + ParsedDocument) \<times> parser" where
  "second_call = parseMarkdown example_libs (Inr ''![b](b.jpg)'') ''notes/two.md'' (snd first_call)"



definition refused_member_world :: world where
  "refused_member_world =
     \<lparr> files = [([[], ''out'', ''.epub-temp-u1'', ''OEBPS'', ''old.txt''], Bytes [])],
       dirs = [[[], ''out'', ''.epub-temp-u1'', ''OEBPS''], [[], ''out'', ''.epub-temp-u1''], [[], ''out'']],
       faults = {[[], ''out'', ''.epub-temp-u1'', ''OEBPS'', ''old.txt'']},
       console = [] \<rparr>"





text \<open>
  An asset that cannot be materialised, as far as the world and the network decide it
  before the run: a local file that is missing or refused, or a URL whose first answer
  is a network error or a final status other than 200.
\<close>

definition unavailable :: "network \<Rightarrow> world \<Rightarrow> ImageReference \<Rightarrow> bool" where
  "unavailable net w img =
     (if is_remote img
      then (case net (startsWith (resolvedPath img) ''https'') (resolvedPath img) of
              NetError msg \<Rightarrow> True
            | Response statusCode location body \<Rightarrow>
                statusCode \<noteq> 200 \<and> ((statusCode = 301 \<or> statusCode = 302) \<and> truthy location) = False)
      else (read_file w (resolve (resolvedPath img)) = None
            \<or> resolve (resolvedPath img) \<in> faults w))"

text \<open>
  The name of an image in the package is its own: it is a plain file name, no other
  image of the list has it, and the cover is not stored under it.
\<close>

definition own_name :: "EpubMetadata \<Rightarrow> ImageReference list \<Rightarrow> nat \<Rightarrow> bool" where
  "own_name m images i =
     (basename (src (images ! i)) \<noteq> [] \<and> basename (src (images ! i)) \<noteq> ''.''
      \<and> basename (src (images ! i)) \<noteq> ''..''
      \<and> list_all (\<lambda>j. j = i \<or> basename (src (images ! j)) \<noteq> basename (src (images ! i)))
           [0 ..< length images]
      \<and> (truthy (cover m) \<and> ''cover'' @ extname (the (cover m)) = basename (src (images ! i))) = False)"

text \<open>
  \<open>unchanged_outside K w w'\<close>: from \<open>w\<close> to \<open>w'\<close> no file has changed but those at the paths
  \<open>K\<close>, the refused paths are the same, and no directory and no printed line is lost.
\<close>

definition unchanged_outside :: "fpath set \<Rightarrow> world \<Rightarrow> world \<Rightarrow> bool" where
  "unchanged_outside K w w' =
     (faults w' = faults w
      \<and> (\<forall>k. k \<notin> K \<longrightarrow> read_file w' k = read_file w k)
      \<and> set (dirs w) \<subseteq> set (dirs w')
      \<and> set (console w) \<subseteq> set (console w'))"

text \<open>A network on which every URL redirects to itself.\<close>

definition redirect_loop :: network where
  "redirect_loop secure url = Response 302 (Some url) []"

text \<open>One reference to a remote image, and one local reference next to it.\<close>

definition remote_images :: "ImageReference list" where
  "remote_images =
     [\<lparr> src = ''http://h/a.png'', resolvedPath = ''http://h/a.png'',
        mediaType = ''image/png'', img_id = ''img-1'' \<rparr>]"

definition two_images :: "ImageReference list" where
  "two_images =
     [\<lparr> src = ''pics/missing.png'', resolvedPath = ''/book/pics/missing.png'',
        mediaType = ''image/png'', img_id = ''img-1'' \<rparr>,
      \<lparr> src = ''pics/here.png'', resolvedPath = ''/book/pics/here.png'',
        mediaType = ''image/png'', img_id = ''img-2'' \<rparr>]"

text \<open>The example world with the file \<open>/book/pics/here.png\<close> in it.\<close>

definition book_world :: world where
  "book_world = example_world\<lparr> files := [([[], ''book'', ''pics'', ''here.png''], Bytes ''PNG'')] \<rparr>"

section \<open>Proofs\<close>

subsection \<open>Chapter mode: images are deduplicated by base filename\<close>



lemma collect_unique_chapters: "chapters (collect_unique imgs st) = chapters st"
  by (induction imgs arbitrary: st) (auto simp: Let_def)

lemma collect_unique_all:
  "allImages (collect_unique imgs st) =
     allImages st @ allImages (collect_unique imgs (st\<lparr> allImages := [] \<rparr>))"
proof (induction imgs arbitrary: st)
  case Nil
  show ?case by simp
next
  case (Cons img rest)
  show ?case
  proof (cases "basename (src img) \<in> seenImages st")
    case True
    then show ?thesis using Cons.IH [of st] by simp
  next
    case False
    let ?k = "basename (src img)"
    have a: "allImages (collect_unique (img # rest) st) =
        (allImages st @ [img]) @ allImages (collect_unique rest
           (st\<lparr> seenImages := insert ?k (seenImages st), allImages := [] \<rparr>))"
      using False
        Cons.IH [of "st\<lparr> seenImages := insert ?k (seenImages st), allImages := allImages st @ [img] \<rparr>"]
      by (simp add: Let_def)
    have b: "allImages (collect_unique (img # rest) (st\<lparr> allImages := [] \<rparr>)) =
        [img] @ allImages (collect_unique rest
           (st\<lparr> seenImages := insert ?k (seenImages st), allImages := [] \<rparr>))"
      using False
        Cons.IH [of "st\<lparr> seenImages := insert ?k (seenImages st), allImages := [img] \<rparr>"]
      by (simp add: Let_def)
    show ?thesis using a b by simp
  qed
qed










subsection \<open>Substrings of the generated documents\<close>

lemma contains_at_append_same [simp]: "contains_at (x @ r) (x @ q) = contains_at r q"
  by (induction x) simp_all

lemma contains_at_self [simp]: "contains_at (x @ r) x"
  using contains_at_append_same [of x r "[]"] by simp

lemma contains_at_extend: "contains_at s q \<Longrightarrow> contains_at (s @ r) q"
proof (induction s arbitrary: q)
  case Nil
  then show ?case by (cases q) simp_all
next
  case (Cons a s)
  then show ?case by (cases q) simp_all
qed

lemma includes_str_nil [simp]: "includes_str s []"
  by (cases s) simp_all

lemma includes_str_here: "contains_at s p \<Longrightarrow> includes_str s p"
  by (cases s; cases p) simp_all

lemma includes_str_head: "includes_str (p @ r) p"
  by (rule includes_str_here) simp

lemma includes_str_self: "includes_str p p"
  using includes_str_head [of p "[]"] by simp

lemma includes_str_skip: "includes_str r p \<Longrightarrow> includes_str (x @ r) p"
  by (induction x) simp_all

lemma includes_str_inside: "includes_str x p \<Longrightarrow> includes_str (x @ r) p"
proof (induction x)
  case Nil
  then have "p = []" by simp
  then show ?case by simp
next
  case (Cons c cs)
  show ?case
  proof (cases "contains_at (c # cs) p")
    case True
    then have "contains_at ((c # cs) @ r) p" by (rule contains_at_extend)
    then show ?thesis by simp
  next
    case False
    then have "includes_str cs p" using Cons.prems by simp
    then have "includes_str (cs @ r) p" by (rule Cons.IH)
    then show ?thesis by simp
  qed
qed

lemma contains_at_prefix: "contains_at s p \<Longrightarrow> \<exists>b. s = p @ b"
proof (induction s p rule: contains_at.induct)
  case (1 s)
  show ?case by simp
next
  case (2 p ps)
  then show ?case by simp
next
  case (3 c cs p ps)
  then have cp: "c = p" and rest: "contains_at cs ps" by simp_all
  from "3.IH" [OF rest] obtain b where "cs = ps @ b" ..
  then have "c # cs = (p # ps) @ b" using cp by simp
  then show ?case ..
qed

lemma includes_str_split: "includes_str s p \<Longrightarrow> \<exists>a b. s = a @ p @ b"
proof (induction s)
  case Nil
  then have "p = []" by simp
  then have "[] = [] @ p @ []" by simp
  then show ?case by (intro exI)
next
  case (Cons c cs)
  show ?case
  proof (cases "contains_at (c # cs) p")
    case True
    then obtain b where "c # cs = p @ b" using contains_at_prefix by blast
    then have "c # cs = [] @ p @ b" by simp
    then show ?thesis by (intro exI)
  next
    case False
    then have "includes_str cs p" using Cons.prems by simp
    then obtain a b where "cs = a @ p @ b" using Cons.IH by blast
    then have "c # cs = (c # a) @ p @ b" by simp
    then show ?thesis by (intro exI)
  qed
qed

lemma includes_str_mid: "includes_str (a @ p @ b) p"
  by (rule includes_str_skip) (rule includes_str_head)

lemma includes_str_trans: "includes_str s t \<Longrightarrow> includes_str t p \<Longrightarrow> includes_str s p"
proof -
  assume st: "includes_str s t" and tp: "includes_str t p"
  from includes_str_split [OF st] obtain a b where s: "s = a @ t @ b" by blast
  from includes_str_split [OF tp] obtain c d where t: "t = c @ p @ d" by blast
  have "s = (a @ c) @ p @ (d @ b)" by (simp add: s t)
  then show ?thesis using includes_str_mid [of "a @ c" p "d @ b"] by simp
qed

lemma join_str_Cons: "join_str sep (y # ys) = y @ concat (map (\<lambda>l. sep @ l) ys)"
  by (simp add: join_str_def)

lemma includes_str_join: "x \<in> set xs \<Longrightarrow> includes_str (join_str sep xs) x"
proof -
  assume "x \<in> set xs"
  then obtain ys zs where xs: "xs = ys @ x # zs" by (meson split_list)
  show ?thesis
  proof (cases ys)
    case Nil
    have "join_str sep (x # zs) = [] @ x @ concat (map (\<lambda>l. sep @ l) zs)"
      by (simp add: join_str_Cons)
    then have "includes_str (join_str sep (x # zs)) x"
      using includes_str_mid [of "[]" x "concat (map (\<lambda>l. sep @ l) zs)"] by simp
    then show ?thesis using xs Nil by simp
  next
    case (Cons y ys')
    have "join_str sep (y # ys' @ x # zs) =
        (y @ concat (map (\<lambda>l. sep @ l) ys') @ sep) @ x @ concat (map (\<lambda>l. sep @ l) zs)"
      by (simp add: join_str_Cons)
    then have "includes_str (join_str sep (y # ys' @ x # zs)) x"
      using includes_str_mid [of "y @ concat (map (\<lambda>l. sep @ l) ys') @ sep" x
                                 "concat (map (\<lambda>l. sep @ l) zs)"] by simp
    then show ?thesis using xs Cons by simp
  qed
qed





subsection \<open>Which metadata values are written without escaping\<close>









subsection \<open>Titles and navigation labels\<close>

lemma navPoint_label: "includes_str (navPoint idx c) (nav_label_line (ch_title c))"
  unfolding navPoint_def
  by (simp only: append_assoc)? ((rule includes_str_head | rule includes_str_skip)+)

lemma navPoint_in_list:
  assumes "c \<in> set chs"
  shows "\<exists>i. navPoint i c \<in> set (map (\<lambda>(idx, chapter). navPoint idx chapter) (enumerate 0 chs))"
proof -
  let ?g = "\<lambda>(idx, chapter). navPoint idx chapter"
  obtain i where i: "i < length chs" "chs ! i = c"
    using assms in_set_conv_nth [of c chs] by blast
  have len: "i < length (map ?g (enumerate 0 chs))" using i by simp
  have "map ?g (enumerate 0 chs) ! i = ?g (enumerate 0 chs ! i)"
    using i by (simp add: nth_map)
  also have "\<dots> = navPoint i c" using i by (simp add: nth_enumerate_eq)
  finally have "map ?g (enumerate 0 chs) ! i = navPoint i c" .
  then have "navPoint i c \<in> set (map ?g (enumerate 0 chs))"
    using nth_mem [OF len] by simp
  then show ?thesis ..
qed

lemma navPoints_label:
  assumes "c \<in> set chs"
  shows "includes_str (getMultiChapterTocNcx m chs) (nav_label_line (ch_title c))"
proof -
  obtain i where "navPoint i c \<in> set (map (\<lambda>(idx, chapter). navPoint idx chapter) (enumerate 0 chs))"
    using navPoint_in_list [OF assms] ..
  then have "includes_str (navPoints chs) (navPoint i c)"
    unfolding navPoints_def join_lines_def by (rule includes_str_join)
  then have "includes_str (navPoints chs) (nav_label_line (ch_title c))"
    using navPoint_label by (rule includes_str_trans)
  then have "includes_str (navPoints chs @ r) (nav_label_line (ch_title c))" for r
    by (rule includes_str_inside)
  then have "includes_str (ncx_head m @ navPoints chs @ r) (nav_label_line (ch_title c))" for r
    by (rule includes_str_skip)
  then show ?thesis unfolding getMultiChapterTocNcx_def by simp
qed

lemma single_nav_label: "includes_str (getTocNcx m) (nav_label_line (title m))"
  unfolding getTocNcx_def
  by (simp only: append_assoc)? ((rule includes_str_head | rule includes_str_skip)+)

lemma parse_loop_chapters:
  "map ch_title (chapters (parse_loop i inputs st)) =
     map ch_title (chapters st) @ map (\<lambda>(p, d). chapter_title d p) inputs"
proof (induction inputs arbitrary: i st)
  case Nil
  show ?case by simp
next
  case (Cons a rest)
  obtain p d where a: "a = (p, d)" by (cases a)
  show ?case by (simp add: a Let_def Cons.IH collect_unique_chapters)
qed

lemma js_or_truthy: "js_or a b = (if truthy a then the a else b)"
  by (cases a) (simp_all add: js_or_def truthy_def)

text \<open>
  Claim C5, as amended. In single-document mode the title of the metadata, which is
  also the label of the one navigation entry, is the configured title when one is given
  and is not empty, else the heading \<open>parseMarkdown\<close> extracted, else the input file's
  basename without its extension. In chapter mode the label of each chapter's
  navigation entry is that document's heading, else its file's basename without
  extension, whatever the configuration says; and the title of the book's metadata is
  the configured title when one is given and is not empty.
\<close>

theorem title_precedence:
  "title (single_metadata config parsed inputPath uuid today) =
     (if truthy (cfg config cfg_title) then the (cfg config cfg_title)
      else if truthy (md_title parsed) then the (md_title parsed)
      else basename_noext inputPath)
   \<and> includes_str (getTocNcx (single_metadata config parsed inputPath uuid today))
         (nav_label_line (title (single_metadata config parsed inputPath uuid today)))
   \<and> (chapters_input inputs config uuid today = Inr (chs, meta, imgs) \<longrightarrow>
         map ch_title chs =
           map (\<lambda>(p, d). if truthy (md_title d) then the (md_title d) else basename_noext p) inputs
         \<and> (\<forall>c \<in> set chs. includes_str (getMultiChapterTocNcx meta chs) (nav_label_line (ch_title c)))
         \<and> (truthy (cfg config cfg_title) \<longrightarrow> title meta = the (cfg config cfg_title)))"
proof -
  have s1: "title (single_metadata config parsed inputPath uuid today) =
     (if truthy (cfg config cfg_title) then the (cfg config cfg_title)
      else if truthy (md_title parsed) then the (md_title parsed)
      else basename_noext inputPath)"
    by (simp add: single_metadata_def prepare_metadata_def single_title_def js_or_truthy)
  have s2: "includes_str (getTocNcx (single_metadata config parsed inputPath uuid today))
         (nav_label_line (title (single_metadata config parsed inputPath uuid today)))"
    by (rule single_nav_label)
  have s3: "map ch_title chs =
           map (\<lambda>(p, d). if truthy (md_title d) then the (md_title d) else basename_noext p) inputs
         \<and> (\<forall>c \<in> set chs. includes_str (getMultiChapterTocNcx meta chs) (nav_label_line (ch_title c)))
         \<and> (truthy (cfg config cfg_title) \<longrightarrow> title meta = the (cfg config cfg_title))"
    if run: "chapters_input inputs config uuid today = Inr (chs, meta, imgs)"
  proof -
    have ne: "inputs \<noteq> []" using run by (auto simp: chapters_input_def)
    have chs: "chs = chapters (parse_loop 0 inputs init_conv)"
      and meta: "meta = prepare_metadata config (book_title config (map fst inputs)) uuid today"
      using run ne by (simp_all add: chapters_input_def Let_def)
    have a: "map ch_title chs =
        map (\<lambda>(p, d). if truthy (md_title d) then the (md_title d) else basename_noext p) inputs"
      by (simp add: chs parse_loop_chapters init_conv_def chapter_title_def js_or_truthy)
    have b: "\<forall>c \<in> set chs. includes_str (getMultiChapterTocNcx meta chs) (nav_label_line (ch_title c))"
      using navPoints_label by blast
    have c: "truthy (cfg config cfg_title) \<longrightarrow> title meta = the (cfg config cfg_title)"
      by (simp add: meta prepare_metadata_def book_title_def js_or_truthy)
    show ?thesis using a b c by blast
  qed
  show ?thesis using s1 s2 s3 by blast
qed


lemma example_paths:
  "basename_noext ''/book/ch1.md'' = ''ch1''" "basename_noext ''/book/ch2.md'' = ''ch2''"
  by (simp_all add: basename_noext_def basename_def extname_def is_slash_def Let_def)

lemma example_chapter_titles:
  "map (\<lambda>(p, d). if truthy (md_title d) then the (md_title d) else basename_noext p) example_inputs
     = [''One'', ''ch2'']"
  by (simp add: example_inputs_def truthy_def example_paths)

theorem title_precedence_witness:
  "title (single_metadata (Some example_config) (snd (hd example_inputs)) ''/book/ch1.md'' ''u'' ''2025-01-01'')
     = ''Book''
   \<and> title (single_metadata None (snd (hd example_inputs)) ''/book/ch1.md'' ''u'' ''2025-01-01'') = ''One''
   \<and> title (single_metadata None (snd (last example_inputs)) ''/book/ch2.md'' ''u'' ''2025-01-01'') = ''ch2''
   \<and> map ch_title (chapters (parse_loop 0 example_inputs init_conv)) = [''One'', ''ch2'']
   \<and> includes_str
         (getMultiChapterTocNcx
            (prepare_metadata None (book_title None (map fst example_inputs)) ''u'' ''2025-01-01'')
            (chapters (parse_loop 0 example_inputs init_conv)))
         (nav_label_line ''One'')
   \<and> title (prepare_metadata (Some example_config)
               (book_title (Some example_config) (map fst example_inputs)) ''u'' ''2025-01-01'')
       = ''Book''"
proof -
  let ?st = "parse_loop 0 example_inputs init_conv"
  let ?meta = "prepare_metadata None (book_title None (map fst example_inputs)) ''u'' ''2025-01-01''"
  have run: "chapters_input example_inputs None ''u'' ''2025-01-01''
      = Inr (chapters ?st, ?meta, allImages ?st)"
    by (simp add: chapters_input_def Let_def example_inputs_def)
  note a = title_precedence [of "Some example_config" "snd (hd example_inputs)" "''/book/ch1.md''"
      "''u''" "''2025-01-01''" example_inputs "chapters ?st" ?meta "allImages ?st"]
  note b = title_precedence [of None "snd (hd example_inputs)" "''/book/ch1.md''"
      "''u''" "''2025-01-01''" example_inputs "chapters ?st" ?meta "allImages ?st"]
  note c = title_precedence [of None "snd (last example_inputs)" "''/book/ch2.md''"
      "''u''" "''2025-01-01''" example_inputs "chapters ?st" ?meta "allImages ?st"]
  let ?meta2 = "prepare_metadata (Some example_config)
      (book_title (Some example_config) (map fst example_inputs)) ''u'' ''2025-01-01''"
  have run2: "chapters_input example_inputs (Some example_config) ''u'' ''2025-01-01''
      = Inr (chapters ?st, ?meta2, allImages ?st)"
    by (simp add: chapters_input_def Let_def example_inputs_def)
  note d = title_precedence [of "Some example_config" "snd (hd example_inputs)" "''/book/ch1.md''"
      "''u''" "''2025-01-01''" example_inputs "chapters ?st" ?meta2 "allImages ?st"]
  have t4: "title ?meta2 = ''Book''"
    using d run2 by (simp add: cfg_def example_config_def truthy_def)
  have t1: "title (single_metadata (Some example_config) (snd (hd example_inputs)) ''/book/ch1.md'' ''u'' ''2025-01-01'') = ''Book''"
    using a by (simp add: cfg_def example_config_def truthy_def)
  have t2: "title (single_metadata None (snd (hd example_inputs)) ''/book/ch1.md'' ''u'' ''2025-01-01'') = ''One''"
    using b by (simp add: cfg_def example_inputs_def truthy_def)
  have t3: "title (single_metadata None (snd (last example_inputs)) ''/book/ch2.md'' ''u'' ''2025-01-01'') = ''ch2''"
    using c by (simp add: cfg_def example_inputs_def truthy_def example_paths)
  have titles: "map ch_title (chapters ?st) = [''One'', ''ch2'']"
    using b run example_chapter_titles by simp
  have "ch_title (hd (chapters ?st)) = ''One''" "hd (chapters ?st) \<in> set (chapters ?st)"
    using titles by (cases "chapters ?st"; simp)+
  then have lab: "includes_str (getMultiChapterTocNcx ?meta (chapters ?st)) (nav_label_line ''One'')"
    using b run by force
  show ?thesis using t1 t2 t3 t4 titles lab by simp
qed

text \<open>
  The claim as it was stated gives one precedence to both modes, for the metadata and
  for the navigation labels. In chapter mode, with the title \<open>Book\<close> configured, the
  chapters are labelled \<open>One\<close> and \<open>ch2\<close> all the same.
\<close>

theorem chapter_title_precedence_counterexample:
  "map_sum id (\<lambda>(chs, meta, imgs). (map ch_title chs, title meta))
       (chapters_input example_inputs (Some example_config) ''u'' ''2025-01-01'')
     = Inr ([''One'', ''ch2''], ''Book'')
   \<and> cfg (Some example_config) cfg_title = Some ''Book''"
proof -
  have ne: "length example_inputs \<noteq> 0" by (simp add: example_inputs_def)
  have titles: "map ch_title (chapters (parse_loop 0 example_inputs init_conv)) = [''One'', ''ch2'']"
    by (simp add: parse_loop_chapters init_conv_def chapter_title_def js_or_truthy example_chapter_titles)
  have bt1: "book_title (Some example_config) (map fst example_inputs) = ''Book''"
    by (simp add: book_title_def js_or_def cfg_def example_config_def)
  have c: "cfg (Some example_config) cfg_title = Some ''Book''"
    by (simp add: cfg_def example_config_def)
  show ?thesis using ne titles bt1 c
    by (simp add: chapters_input_def Let_def prepare_metadata_def)
qed

subsection \<open>Single-document mode: duplicate image references\<close>

lemma opf_image_manifest: "includes_str (getContentOpf m images today) (imageManifest images)"
  unfolding getContentOpf_def
  by (simp only: append_assoc)? ((rule includes_str_head | rule includes_str_skip)+)

lemma duplicate_manifest:
  \<open>imageManifest duplicate_images =
     ''    <item id="image-0" href="images/pic.png" media-type="image/png"/>\<newline>''
     @ ''    <item id="image-1" href="images/pic.png" media-type="image/png"/>''\<close>
  by (simp add: imageManifest_def image_items_def duplicate_images_def join_lines_def join_str_def
      render_item_def show_nat.simps digit_char_def basename_def is_slash_def)

text \<open>
  Claim C3 says that a single document with two references of one basename still has
  one manifest entry for that asset. \<open>getContentOpf\<close> writes one item per element of the
  list it is given, and single-document mode hands it the parser's list as it is: the
  two references of \<open>pic.png\<close> give the items \<open>image-0\<close> and \<open>image-1\<close>, both with the
  href \<open>images/pic.png\<close>. Chapter mode removes such duplicates before it calls the
  generator; single-document mode does not.
\<close>

theorem single_mode_duplicate_manifest_entries:
  \<open>map item_id (image_items duplicate_images) = [''image-0'', ''image-1'']
   \<and> map item_href (image_items duplicate_images) = [''images/pic.png'', ''images/pic.png'']
   \<and> includes_str (getContentOpf example_metadata duplicate_images ''2025-01-02'')
        (''    <item id="image-0" href="images/pic.png" media-type="image/png"/>\<newline>''
         @ ''    <item id="image-1" href="images/pic.png" media-type="image/png"/>'')\<close>
proof -
  have a: "map item_id (image_items duplicate_images) = [''image-0'', ''image-1'']"
    by (simp add: image_items_def duplicate_images_def show_nat.simps digit_char_def)
  have b: "map item_href (image_items duplicate_images) = [''images/pic.png'', ''images/pic.png'']"
    by (simp add: image_items_def duplicate_images_def basename_def is_slash_def)
  have c: "includes_str (getContentOpf example_metadata duplicate_images ''2025-01-02'')
             (imageManifest duplicate_images)"
    by (rule opf_image_manifest)
  show ?thesis using a b c unfolding duplicate_manifest by simp
qed

subsection \<open>The archive's first entry\<close>

text \<open>
  Claim C1 says that the mimetype entry is the first of the archive, holds the bytes
  \<open>application/epub+zip\<close>, and is the only entry stored without compression. The run
  below converts a document with no image into \<open>/out/book.epub\<close>: the first entry of the
  archive is the mimetype file with the right bytes, but it is deflated, as every other
  file entry is, since \<open>createEpubArchive\<close> appends it with \<open>{ name: 'mimetype' }\<close> alone and
  never asks for \<open>store: true\<close>. The entries that are stored are the two directory
  entries \<open>OEBPS/css/\<close> and \<open>OEBPS/images/\<close>.
\<close>

theorem mimetype_entry_is_deflated:
  "case generateEpub offline ''u1'' ''2025-01-02'' ''<p>Hi</p>'' example_metadata [] ''/out/book.epub''
          example_world of
     Some (None, w') \<Rightarrow>
       (case read_file w' (resolve ''/out/book.epub'') of
          Some (Zip (e # es)) \<Rightarrow>
            e = Entry ''mimetype'' (Bytes ''application/epub+zip'') Deflated
            \<and> list_all (\<lambda>x. (entry_method x = Stored)
                            = (entry_name x = ''OEBPS/css/'' \<or> entry_name x = ''OEBPS/images/'')) es
            \<and> list_all (\<lambda>x. entry_method x = Deflated \<or> entry_method x = Stored) es
        | _ \<Rightarrow> False)
   | _ \<Rightarrow> False"
  by code_simp

subsection \<open>Fetching a remote image\<close>

lemma read_put_file: "read_file (put_file k c w) k = Some c"
  by (simp add: read_file_def put_file_def)

lemma write_content_read:
  "write_content p c w = Inr w' \<Longrightarrow> read_file w' (resolve p) = Some c"
  by (auto simp: write_content_def Let_def read_put_file split: if_splits)

text \<open>
  Claim C7, as amended. A 301 or 302 response with a non-empty \<open>Location\<close> is followed:
  the download of the URL is the download of the location. A network error rejects. A
  response that is not such a redirect rejects unless its status is exactly 200, so
  the other 2xx statuses reject as well. On a 200 the body is written to the
  destination and the promise resolves; if the write fails, the destination is unlinked
  and the write's error rejects the promise.
\<close>

theorem downloadImage_outcomes:
  "(net (startsWith url ''https'') url = Response st (Some loc) body
      \<and> (st = 301 \<or> st = 302) \<and> loc \<noteq> []
      \<longrightarrow> downloadImage net url dest w = downloadImage net loc dest w)
   \<and> (net (startsWith url ''https'') url = NetError msg
      \<longrightarrow> downloadImage net url dest w = Some (Some (NetworkError msg), w))
   \<and> (net (startsWith url ''https'') url = Response st hdr body
      \<and> \<not> ((st = 301 \<or> st = 302) \<and> truthy hdr) \<and> st \<noteq> 200
      \<longrightarrow> downloadImage net url dest w = Some (Some (HttpStatus st), w))
   \<and> (net (startsWith url ''https'') url = Response 200 hdr body
      \<longrightarrow> downloadImage net url dest w =
            (case writeFile dest body w of
               Inl err \<Rightarrow> Some (Some err, unlink dest w)
             | Inr w' \<Rightarrow> Some (None, w')))
   \<and> (net (startsWith url ''https'') url = Response 200 hdr body \<and> writeFile dest body w = Inr w'
      \<longrightarrow> downloadImage net url dest w = Some (None, w')
          \<and> read_file w' (resolve dest) = Some (Bytes body))"
proof -
  have a: "downloadImage net url dest w = downloadImage net loc dest w"
    if "net (startsWith url ''https'') url = Response st (Some loc) body"
       "st = 301 \<or> st = 302" "loc \<noteq> []"
    using that by (subst downloadImage.simps) (auto simp: truthy_def)
  have b: "downloadImage net url dest w = Some (Some (NetworkError msg), w)"
    if "net (startsWith url ''https'') url = NetError msg"
    using that by (subst downloadImage.simps) simp
  have c: "downloadImage net url dest w = Some (Some (HttpStatus st), w)"
    if "net (startsWith url ''https'') url = Response st hdr body"
       "\<not> ((st = 301 \<or> st = 302) \<and> truthy hdr)" "st \<noteq> 200"
    using that by (subst downloadImage.simps) auto
  have d: "downloadImage net url dest w =
            (case writeFile dest body w of
               Inl err \<Rightarrow> Some (Some err, unlink dest w)
             | Inr w' \<Rightarrow> Some (None, w'))"
    if "net (startsWith url ''https'') url = Response 200 hdr body"
    using that by (subst downloadImage.simps) simp
  have e: "downloadImage net url dest w = Some (None, w') \<and> read_file w' (resolve dest) = Some (Bytes body)"
    if "net (startsWith url ''https'') url = Response 200 hdr body" "writeFile dest body w = Inr w'"
    using that d write_content_read [of dest "Bytes body" w w'] by (simp add: writeFile_def)
  show ?thesis using a b c d e by blast
qed

lemma example_write:
  "writeFile ''/out/a.png'' ''PNG'' example_world = Inr (put_file (resolve ''/out/a.png'') (Bytes ''PNG'') example_world)"
  by (simp add: writeFile_def write_content_def example_world_def resolve_def startsWith_def
      norm_step_def is_slash_def dir_exists_def Let_def)

theorem downloadImage_outcomes_witness:
  "downloadImage redirecting ''http://h/a.png'' ''/out/a.png'' example_world
     = Some (None, put_file (resolve ''/out/a.png'') (Bytes ''PNG'') example_world)
   \<and> read_file (put_file (resolve ''/out/a.png'') (Bytes ''PNG'') example_world) (resolve ''/out/a.png'')
       = Some (Bytes ''PNG'')
   \<and> downloadImage redirecting ''http://h/missing.png'' ''/out/a.png'' example_world
       = Some (Some (NetworkError ''unreachable''), example_world)
   \<and> downloadImage no_content ''http://h/a.png'' ''/out/a.png'' example_world
       = Some (Some (HttpStatus 204), example_world)"
proof -
  let ?w' = "put_file (resolve ''/out/a.png'') (Bytes ''PNG'') example_world"
  have s1: "startsWith ''http://h/a.png'' ''https'' = False" "startsWith ''https://h/b.png'' ''https'' = True"
    "startsWith ''http://h/missing.png'' ''https'' = False"
    by (simp_all add: startsWith_def)
  have r1: "redirecting (startsWith ''http://h/a.png'' ''https'') ''http://h/a.png''
      = Response 302 (Some ''https://h/b.png'') []"
    by (simp add: redirecting_def s1)
  have r2: "redirecting (startsWith ''https://h/b.png'' ''https'') ''https://h/b.png'' = Response 200 None ''PNG''"
    by (simp add: redirecting_def s1)
  have r3: "redirecting (startsWith ''http://h/missing.png'' ''https'') ''http://h/missing.png''
      = NetError ''unreachable''"
    by (simp add: redirecting_def s1)
  have r4: "no_content (startsWith ''http://h/a.png'' ''https'') ''http://h/a.png'' = Response 204 None []"
    by (simp add: no_content_def)
  note t1 = downloadImage_outcomes [of redirecting "''http://h/a.png''" 302 "''https://h/b.png''" "[]"
      "''/out/a.png''" example_world]
  note t2 = downloadImage_outcomes [of redirecting "''https://h/b.png''" 200 _ "''PNG''"
      "''/out/a.png''" example_world _ None ?w']
  note t3 = downloadImage_outcomes [of redirecting "''http://h/missing.png''" _ _ _
      "''/out/a.png''" example_world "''unreachable''"]
  note t4 = downloadImage_outcomes [of no_content "''http://h/a.png''" 204 _ "[]"
      "''/out/a.png''" example_world _ None]
  have a: "downloadImage redirecting ''http://h/a.png'' ''/out/a.png'' example_world
      = downloadImage redirecting ''https://h/b.png'' ''/out/a.png'' example_world"
    using t1 r1 by simp
  have b: "downloadImage redirecting ''https://h/b.png'' ''/out/a.png'' example_world = Some (None, ?w')
      \<and> read_file ?w' (resolve ''/out/a.png'') = Some (Bytes ''PNG'')"
    using t2 r2 example_write by simp
  have c: "downloadImage redirecting ''http://h/missing.png'' ''/out/a.png'' example_world
       = Some (Some (NetworkError ''unreachable''), example_world)"
    using t3 r3 by simp
  have d: "downloadImage no_content ''http://h/a.png'' ''/out/a.png'' example_world
       = Some (Some (HttpStatus 204), example_world)"
    using t4 r4 by (simp add: truthy_def)
  show ?thesis using a b c d by simp
qed

text \<open>
  The claim as it was stated lets every 2xx terminal response succeed. A 204 rejects.
\<close>

theorem status_204_rejected_counterexample:
  "downloadImage no_content ''http://h/a.png'' ''/out/a.png'' example_world
     = Some (Some (HttpStatus 204), example_world)"
  by (subst downloadImage.simps) (simp add: no_content_def truthy_def)

subsection \<open>Resolving joined paths\<close>

lemma segments_nonempty [simp]: "segments s \<noteq> []"
  by (induction s) (auto split: list.splits)

lemma segments_append_slash: "segments (a @ CHR ''/'' # b) = segments a @ segments b"
proof (induction a)
  case Nil
  show ?case by (simp add: is_slash_def)
next
  case (Cons c a)
  show ?case
  proof (cases "is_slash c")
    case True
    then show ?thesis using Cons by simp
  next
    case False
    obtain s ss where ss: "segments a = s # ss" by (cases "segments a") simp_all
    show ?thesis using False Cons ss by simp
  qed
qed

lemma segments_plain: "CHR ''/'' \<notin> set s \<Longrightarrow> segments s = [s]"
  by (induction s) (auto simp: is_slash_def)

lemma segments_joined:
  "\<forall>p \<in> set ps. CHR ''/'' \<notin> set p \<Longrightarrow>
     segments (t @ concat (map (\<lambda>l. ''/'' @ l) ps)) = segments t @ ps"
proof (induction ps arbitrary: t)
  case Nil
  show ?case by simp
next
  case (Cons p ps)
  have ps: "\<forall>p \<in> set ps. CHR ''/'' \<notin> set p" and p: "CHR ''/'' \<notin> set p"
    using Cons.prems by simp_all
  have "segments (t @ concat (map (\<lambda>l. ''/'' @ l) (p # ps)))
      = segments ((t @ CHR ''/'' # p) @ concat (map (\<lambda>l. ''/'' @ l) ps))" by simp
  also have "\<dots> = segments (t @ CHR ''/'' # p) @ ps" by (rule Cons.IH [OF ps])
  also have "\<dots> = segments t @ p # ps"
    using p by (simp add: segments_append_slash segments_plain)
  finally show ?case .
qed

lemma norm_step_empty [simp]: "norm_step st [] = st"
  by (simp add: norm_step_def)

lemma foldl_norm_step_filter:
  "foldl norm_step st (filter (\<lambda>p. p \<noteq> []) ps) = foldl norm_step st ps"
  by (induction ps arbitrary: st) simp_all

lemma startsWith_slash_append: "t \<noteq> [] \<Longrightarrow> startsWith (t @ r) ''/'' = startsWith t ''/''"
  by (cases t) (simp_all add: startsWith_def)

lemma resolve_empty: "resolve [] = []"
  by (simp add: resolve_def startsWith_def)

lemma resolve_dot: "resolve ''.'' = []"
  by (simp add: resolve_def startsWith_def norm_step_def is_slash_def)

lemma slash_append: "(@) ''/'' = (#) CHR ''/''"
  by (rule ext) simp

lemma resolve_join:
  assumes plain: "\<forall>p \<in> set parts. CHR ''/'' \<notin> set p"
  shows "resolve (path_join (t # parts)) = foldl norm_step (resolve t) parts"
proof -
  let ?ps = "filter (\<lambda>p. p \<noteq> []) parts"
  have plain': "\<forall>p \<in> set ?ps. CHR ''/'' \<notin> set p" using plain by simp
  show ?thesis
  proof (cases "t = []")
    case False
    have j: "path_join (t # parts) = t @ concat (map (\<lambda>l. ''/'' @ l) ?ps)"
      using False by (simp add: path_join_def join_str_def Let_def slash_append)
    have sw: "startsWith (t @ concat (map (\<lambda>l. ''/'' @ l) ?ps)) ''/'' = startsWith t ''/''"
      using False by (rule startsWith_slash_append)
    have "resolve (path_join (t # parts))
        = foldl norm_step (if startsWith t ''/'' then [[]] else []) (segments t @ ?ps)"
      unfolding j resolve_def sw segments_joined [OF plain'] ..
    also have "\<dots> = foldl norm_step (resolve t) ?ps" by (simp add: resolve_def)
    finally show ?thesis by (simp add: foldl_norm_step_filter)
  next
    case True
    show ?thesis
    proof (cases ?ps)
      case Nil
      then have "path_join (t # parts) = ''.''" using True by (simp add: path_join_def Let_def)
      moreover have "foldl norm_step [] parts = foldl norm_step [] ?ps"
        by (simp add: foldl_norm_step_filter)
      ultimately show ?thesis using True Nil by (simp add: resolve_dot resolve_empty)
    next
      case (Cons q qs)
      have "q \<in> set ?ps" using Cons by simp
      then have q: "q \<noteq> []" "CHR ''/'' \<notin> set q" using plain by simp_all
      have qs: "\<forall>p \<in> set qs. CHR ''/'' \<notin> set p" using plain' Cons by simp
      have j: "path_join (t # parts) = q @ concat (map (\<lambda>l. ''/'' @ l) qs)"
        using True Cons by (simp add: path_join_def join_str_def Let_def slash_append)
      obtain c cs where qc: "q = c # cs" using q(1) by (cases q) simp_all
      have "c \<noteq> CHR ''/''" using q(2) qc by auto
      then have nosl: "startsWith (q @ concat (map (\<lambda>l. ''/'' @ l) qs)) ''/'' = False"
        using qc by (simp add: startsWith_def)
      have "resolve (path_join (t # parts)) = foldl norm_step [] (segments q @ qs)"
        unfolding j resolve_def nosl segments_joined [OF qs] by simp
      also have "\<dots> = foldl norm_step [] (q # qs)" using q by (simp add: segments_plain)
      also have "\<dots> = foldl norm_step [] ?ps" using Cons by simp
      also have "\<dots> = foldl norm_step [] parts" by (rule foldl_norm_step_filter)
      finally show ?thesis using True by (simp add: resolve_empty)
    qed
  qed
qed

subsection \<open>What staging reads and writes\<close>

lemma basename_plain: "CHR ''/'' \<notin> set (basename p)"
proof -
  have "\<forall>c \<in> set (takeWhile (\<lambda>c. \<not> is_slash c) xs). \<not> is_slash c" for xs
    by (auto dest: set_takeWhileD)
  then show ?thesis by (auto simp: basename_def is_slash_def)
qed

lemma extname_plain: "CHR ''/'' \<notin> set (extname p)"
proof -
  have "set (takeWhile P xs) \<subseteq> set xs" for P and xs :: string
    by (auto dest: set_takeWhileD)
  then have "set (rev (takeWhile (\<lambda>c. c \<noteq> CHR ''.'') (rev (basename p)))) \<subseteq> set (basename p)"
    by fastforce
  then show ?thesis using basename_plain [of p] by (auto simp: extname_def Let_def)
qed

lemma norm_step_plain:
  "s \<noteq> [] \<Longrightarrow> s \<noteq> ''.'' \<Longrightarrow> s \<noteq> ''..'' \<Longrightarrow> norm_step st s = st @ [s]"
  by (simp add: norm_step_def)

lemma under_append [simp]: "under k (k @ r)"
  by (simp add: under_def)

lemma staged_keys:
  "resolve (path_join [t, ''mimetype'']) = resolve t @ [''mimetype'']"
  "resolve (path_join [t, ''META-INF'', ''container.xml'']) = resolve t @ [''META-INF'', ''container.xml'']"
  "resolve (path_join [t, ''OEBPS'', ''content.opf'']) = resolve t @ [''OEBPS'', ''content.opf'']"
  "resolve (path_join [t, ''OEBPS'', ''toc.ncx'']) = resolve t @ [''OEBPS'', ''toc.ncx'']"
  "resolve (path_join [t, ''OEBPS'', ''content.xhtml'']) = resolve t @ [''OEBPS'', ''content.xhtml'']"
  "resolve (path_join [t, ''OEBPS'', ''css'', ''style.css'']) = resolve t @ [''OEBPS'', ''css'', ''style.css'']"
  by (simp_all add: resolve_join norm_step_plain)

lemma image_key:
  assumes "CHR ''/'' \<notin> set b"
  shows "resolve (path_join [t, ''OEBPS'', ''images'', b]) = norm_step (resolve t @ [''OEBPS'', ''images'']) b"
  using assms by (simp add: resolve_join norm_step_plain)

lemma image_key_cases:
  "norm_step (k @ [''OEBPS'', ''images'']) b = k @ [''OEBPS'', ''images'']
   \<or> norm_step (k @ [''OEBPS'', ''images'']) b = k @ [''OEBPS'']
   \<or> norm_step (k @ [''OEBPS'', ''images'']) b = k @ [''OEBPS'', ''images'', b]"
  by (simp add: norm_step_def butlast_append)

lemma image_key_under: "under k (norm_step (k @ [''OEBPS'', ''images'']) b)"
  using image_key_cases [of k b] by (auto simp: under_def)

lemma image_key_not_opf: "norm_step (k @ [''OEBPS'', ''images'']) b \<noteq> k @ [''OEBPS'', ''content.opf'']"
  using image_key_cases [of k b] by auto

lemma map_of_filter_other:
  "k \<noteq> k' \<Longrightarrow> map_of (filter (\<lambda>(a, b). a \<noteq> k') xs) k = map_of xs k"
  by (induction xs) auto

lemma read_put_other: "k \<noteq> k' \<Longrightarrow> read_file (put_file k' c w) k = read_file w k"
  by (simp add: read_file_def put_file_def map_of_filter_other)

lemma write_content_frame:
  "write_content p c w = Inr w' \<Longrightarrow> k \<noteq> resolve p \<Longrightarrow> read_file w' k = read_file w k"
  by (auto simp: write_content_def Let_def read_put_other split: if_splits)

lemma write_content_console: "write_content p c w = Inr w' \<Longrightarrow> console w' = console w"
  by (auto simp: write_content_def Let_def put_file_def split: if_splits)

lemma mkdir_frame: "mkdir p w = Inr w' \<Longrightarrow> read_file w' k = read_file w k"
  by (auto simp: mkdir_def Let_def read_file_def split: if_splits)

lemma copyFile_frame:
  "copyFile s p w = Inr w' \<Longrightarrow> k \<noteq> resolve p \<Longrightarrow> read_file w' k = read_file w k"
  by (auto simp: copyFile_def Let_def write_content_frame split: if_splits option.splits)

lemma copyFile_console: "copyFile s p w = Inr w' \<Longrightarrow> console w' = console w"
  by (auto simp: copyFile_def Let_def write_content_console split: if_splits option.splits)

lemma copyFile_missing: "read_file w (resolve s) = None \<Longrightarrow> \<exists>err. copyFile s p w = Inl err"
  by (simp add: copyFile_def Let_def)

lemma console_warn_frame [simp]: "read_file (console_warn s e w) k = read_file w k"
  by (simp add: console_warn_def read_file_def)

lemma run_steps_frame:
  assumes "\<forall>s \<in> set steps. \<forall>v v'. s v = Inr v' \<longrightarrow> read_file v' k = read_file v k"
      and "run_steps steps w = (r, w1)"
  shows "read_file w1 k = read_file w k"
  using assms
proof (induction steps arbitrary: w)
  case Nil
  then show ?case by simp
next
  case (Cons a as)
  have rest: "\<forall>s \<in> set as. \<forall>v v'. s v = Inr v' \<longrightarrow> read_file v' k = read_file v k"
    using Cons.prems(1) by simp
  have head: "\<forall>v v'. a v = Inr v' \<longrightarrow> read_file v' k = read_file v k"
    using Cons.prems(1) by simp
  show ?case
  proof (cases "a w")
    case (Inl e)
    then show ?thesis using Cons.prems(2) by simp
  next
    case (Inr v)
    then have "run_steps as v = (r, w1)" using Cons.prems(2) by simp
    then have "read_file w1 k = read_file v k" by (rule Cons.IH [OF rest])
    moreover have "read_file v k = read_file w k" using head Inr by blast
    ultimately show ?thesis by simp
  qed
qed

lemma run_steps_append:
  "run_steps (a @ b) w =
     (case run_steps a w of (Some e, w') \<Rightarrow> (Some e, w') | (None, w') \<Rightarrow> run_steps b w')"
  by (induction a arbitrary: w) (auto split: sum.splits)

lemma run_steps_split:
  "run_steps (a @ s # b) w = (None, w1) \<Longrightarrow>
     \<exists>wa wb. run_steps a w = (None, wa) \<and> s wa = Inr wb \<and> run_steps b wb = (None, w1)"
proof (induction a arbitrary: w)
  case Nil
  then show ?case by (cases "s w") simp_all
next
  case (Cons x a)
  show ?case
  proof (cases "x w")
    case (Inl e)
    then show ?thesis using Cons.prems by simp
  next
    case (Inr v)
    then have "run_steps (a @ s # b) v = (None, w1)" using Cons.prems by simp
    then obtain wa wb where "run_steps a v = (None, wa)" "s wa = Inr wb" "run_steps b wb = (None, w1)"
      using Cons.IH by blast
    then show ?thesis using Inr by auto
  qed
qed

lemma copy_images_local_step:
  "\<not> is_remote img \<Longrightarrow>
     copy_images net t (img # rest) w =
       copy_images net t rest
         (case copyFile (resolvedPath img) (path_join [t, ''OEBPS'', ''images'', basename (src img)]) w of
            Inl err \<Rightarrow> console_warn (''Warning: Could not process image '' @ src img @ '':'') err w
          | Inr w' \<Rightarrow> w')"
  by (simp add: Let_def split: sum.splits)

lemma copy_images_local:
  "\<forall>i \<in> set images. \<not> is_remote i \<Longrightarrow> \<exists>w2. copy_images net t images w = Some w2"
proof (induction images arbitrary: w)
  case Nil
  show ?case by simp
next
  case (Cons img rest)
  then have loc: "\<not> is_remote img" and rest: "\<forall>i \<in> set rest. \<not> is_remote i" by simp_all
  show ?case unfolding copy_images_local_step [OF loc] by (rule Cons.IH [OF rest])
qed

lemma copy_step_frame:
  assumes "\<forall>b. k \<noteq> norm_step (resolve t @ [''OEBPS'', ''images'']) b"
  shows "read_file
           (case copyFile s (path_join [t, ''OEBPS'', ''images'', basename x]) w of
              Inl err \<Rightarrow> console_warn msg err w
            | Inr w' \<Rightarrow> w') k = read_file w k"
proof (cases "copyFile s (path_join [t, ''OEBPS'', ''images'', basename x]) w")
  case (Inl e)
  then show ?thesis by simp
next
  case (Inr w')
  have "k \<noteq> resolve (path_join [t, ''OEBPS'', ''images'', basename x])"
    using assms by (simp add: image_key [OF basename_plain])
  then show ?thesis using Inr copyFile_frame by simp
qed

lemma copy_images_frame:
  assumes "\<forall>i \<in> set images. \<not> is_remote i"
      and "\<forall>b. k \<noteq> norm_step (resolve t @ [''OEBPS'', ''images'']) b"
      and "copy_images net t images w = Some w2"
  shows "read_file w2 k = read_file w k"
  using assms
proof (induction images arbitrary: w)
  case Nil
  then show ?case by simp
next
  case (Cons img rest)
  have loc: "\<not> is_remote img" and rest: "\<forall>i \<in> set rest. \<not> is_remote i"
    using Cons.prems(1) by simp_all
  let ?w = "case copyFile (resolvedPath img) (path_join [t, ''OEBPS'', ''images'', basename (src img)]) w of
            Inl err \<Rightarrow> console_warn (''Warning: Could not process image '' @ src img @ '':'') err w
          | Inr w' \<Rightarrow> w'"
  have "copy_images net t rest ?w = Some w2"
    using Cons.prems(3) unfolding copy_images_local_step [OF loc] .
  then have "read_file w2 k = read_file ?w k" by (rule Cons.IH [OF rest Cons.prems(2)])
  then show ?case using copy_step_frame [OF Cons.prems(2)] by simp
qed

lemma copy_step_console:
  "set (console w) \<subseteq> set (console
           (case copyFile s p w of
              Inl err \<Rightarrow> console_warn msg err w
            | Inr w' \<Rightarrow> w'))"
  by (cases "copyFile s p w") (auto simp: console_warn_def copyFile_console)

lemma copy_images_console:
  assumes "\<forall>i \<in> set images. \<not> is_remote i"
      and "copy_images net t images w = Some w2"
  shows "set (console w) \<subseteq> set (console w2)"
  using assms
proof (induction images arbitrary: w)
  case Nil
  then show ?case by simp
next
  case (Cons img rest)
  have loc: "\<not> is_remote img" and rest: "\<forall>i \<in> set rest. \<not> is_remote i"
    using Cons.prems(1) by simp_all
  let ?w = "case copyFile (resolvedPath img) (path_join [t, ''OEBPS'', ''images'', basename (src img)]) w of
            Inl err \<Rightarrow> console_warn (''Warning: Could not process image '' @ src img @ '':'') err w
          | Inr w' \<Rightarrow> w'"
  have "copy_images net t rest ?w = Some w2"
    using Cons.prems(2) unfolding copy_images_local_step [OF loc] .
  then have b: "set (console ?w) \<subseteq> set (console w2)" by (rule Cons.IH [OF rest])
  have a: "set (console w) \<subseteq> set (console ?w)" by (rule copy_step_console)
  show ?case using a b by (rule subset_trans)
qed

lemma copy_images_warns:
  assumes "\<forall>i \<in> set images. \<not> is_remote i"
      and "img \<in> set images"
      and "read_file w (resolve (resolvedPath img)) = None"
      and "\<not> under (resolve t) (resolve (resolvedPath img))"
      and "copy_images net t images w = Some w2"
  shows "\<exists>err. WarnLine (''Warning: Could not process image '' @ src img @ '':'') err \<in> set (console w2)"
  using assms
proof (induction images arbitrary: w)
  case Nil
  then show ?case by simp
next
  case (Cons h rest)
  have loc: "\<not> is_remote h" and rest: "\<forall>i \<in> set rest. \<not> is_remote i"
    using Cons.prems(1) by simp_all
  let ?k = "resolve (resolvedPath img)"
  let ?w = "case copyFile (resolvedPath h) (path_join [t, ''OEBPS'', ''images'', basename (src h)]) w of
            Inl err \<Rightarrow> console_warn (''Warning: Could not process image '' @ src h @ '':'') err w
          | Inr w' \<Rightarrow> w'"
  have nk: "\<forall>b. ?k \<noteq> norm_step (resolve t @ [''OEBPS'', ''images'']) b"
    using Cons.prems(4) image_key_under [of "resolve t"] by metis
  have run: "copy_images net t rest ?w = Some w2"
    using Cons.prems(5) unfolding copy_images_local_step [OF loc] .
  have still: "read_file ?w ?k = None"
    using copy_step_frame [OF nk] Cons.prems(3) by simp
  show ?case
  proof (cases "img = h")
    case True
    obtain err where "copyFile (resolvedPath h) (path_join [t, ''OEBPS'', ''images'', basename (src h)]) w = Inl err"
      using copyFile_missing Cons.prems(3) True by blast
    then have "WarnLine (''Warning: Could not process image '' @ src h @ '':'') err \<in> set (console ?w)"
      by (simp add: console_warn_def)
    then have "WarnLine (''Warning: Could not process image '' @ src h @ '':'') err \<in> set (console w2)"
      using copy_images_console [OF rest run] by blast
    then show ?thesis using True by blast
  next
    case False
    then have "img \<in> set rest" using Cons.prems(2) by simp
    then show ?thesis using Cons.IH [OF rest _ still Cons.prems(4) run] by blast
  qed
qed

subsection \<open>The refused paths never change\<close>

lemma put_file_faults [simp]: "faults (put_file k c w) = faults w"
  by (simp add: put_file_def)

lemma console_faults [simp]:
  "faults (console_log s w) = faults w" "faults (console_warn s e w) = faults w"
  by (simp_all add: console_log_def console_warn_def)

lemma unlink_faults [simp]: "faults (unlink p w) = faults w"
  by (simp add: unlink_def)

lemma write_content_faults: "write_content p c w = Inr w' \<Longrightarrow> faults w' = faults w"
  by (auto simp: write_content_def Let_def split: if_splits)



lemma copyFile_faults: "copyFile s p w = Inr w' \<Longrightarrow> faults w' = faults w"
  by (auto simp: copyFile_def Let_def write_content_faults split: if_splits option.splits)

lemma rm_faults [simp]: "faults (snd (rm p w)) = faults w"
  by (simp add: rm_def Let_def)







lemma copy_cover_faults [simp]: "faults (copy_cover m t w) = faults w"
  by (auto simp: copy_cover_def Let_def copyFile_faults split: sum.splits)




subsection \<open>The staging directory after a conversion\<close>













subsection \<open>Chapter mode: the manifest of the package document\<close>














subsection \<open>Two calls of \<open>parseMarkdown\<close>\<close>

lemma render_nodes_state:
  "render_nodes L ns p = (h, p') \<Longrightarrow>
     h = concat (map node_html ns)
     \<and> parsedImages p' = parsedImages p
     \<and> allocated p' = allocated p
     \<and> currentBaseDir p' = currentBaseDir p
     \<and> uuids_drawn p' = uuids_drawn p + length (own_images L (currentBaseDir p) (uuids_drawn p) ns)
     \<and> arrays p' = (arrays p)(parsedImages p :=
           arrays p (parsedImages p) @ own_images L (currentBaseDir p) (uuids_drawn p) ns)"
proof (induction ns arbitrary: p h p')
  case Nil
  then show ?case by simp
next
  case (Cons n ns)
  show ?case
  proof (cases n)
    case (HtmlNode x)
    obtain r q where rq: "render_nodes L ns p = (r, q)" by (cases "render_nodes L ns p")
    from Cons.IH [OF rq] Cons.prems HtmlNode rq show ?thesis by simp
  next
    case (ImageNode href t x)
    define p1 where "p1 = snd (customImageRenderer L href t x p)"
    obtain r q where rq: "render_nodes L ns p1 = (r, q)" by (cases "render_nodes L ns p1")
    have c: "customImageRenderer L href t x p = (image_tag href t x, p1)"
      unfolding p1_def customImageRenderer_def by (simp add: Let_def)
    have p1: "arrays p1 = (arrays p)(parsedImages p := arrays p (parsedImages p)
                     @ [image_reference L (currentBaseDir p) (uuids_drawn p) href])"
      "uuids_drawn p1 = uuids_drawn p + 1" "parsedImages p1 = parsedImages p"
      "allocated p1 = allocated p" "currentBaseDir p1 = currentBaseDir p"
      unfolding p1_def customImageRenderer_def by (simp_all add: Let_def)
    from Cons.prems ImageNode c rq have hp: "h = image_tag href t x @ r" "p' = q" by simp_all
    from Cons.IH [OF rq] hp ImageNode show ?thesis by (auto simp: p1 fun_eq_iff)
  next
    case (FootnoteNode i t)
    obtain r q where rq: "render_nodes L ns p = (r, q)" by (cases "render_nodes L ns p")
    from Cons.IH [OF rq] Cons.prems FootnoteNode rq show ?thesis by simp
  next
    case (FootnoteRefNode i)
    obtain r q where rq: "render_nodes L ns p = (r, q)" by (cases "render_nodes L ns p")
    from Cons.IH [OF rq] Cons.prems FootnoteRefNode rq show ?thesis by simp
  qed
qed

lemma parseMarkdown_text:
  "parseMarkdown L (Inr md) filePath p =
     (case marked_lex L md of
        None \<Rightarrow> (Inl ParseError,
                 (configureMarked (p\<lparr> arrays := (arrays p)(allocated p := []),
                     parsedImages := allocated p, allocated := allocated p + 1,
                     currentBaseDir := dirname filePath \<rparr>))
                 \<lparr> renderers_used := renderers_used (configureMarked p) + 1 \<rparr>)
      | Some nodes \<Rightarrow>
          (case render_nodes L nodes
                  ((configureMarked (p\<lparr> arrays := (arrays p)(allocated p := []),
                     parsedImages := allocated p, allocated := allocated p + 1,
                     currentBaseDir := dirname filePath \<rparr>))
                   \<lparr> renderers_used := renderers_used (configureMarked p) + 1 \<rparr>) of
             (html, p5) \<Rightarrow>
               (Inr \<lparr> pd_html = html, pd_images = parsedImages p5, pd_title = extractTitle md \<rparr>,
                p5)))"
  unfolding parseMarkdown_def Let_def configureMarked_def
  by (simp split: option.split prod.split)

lemma parseMarkdown_success:
  assumes "parseMarkdown L answer filePath p = (Inr d, p')"
  shows "\<exists>md nodes. answer = Inr md \<and> marked_lex L md = Some nodes
           \<and> pd_html d = concat (map node_html nodes)
           \<and> pd_title d = extractTitle md
           \<and> pd_images d = allocated p
           \<and> allocated p' = allocated p + 1
           \<and> arrays p' = (arrays p)(allocated p := own_images L (dirname filePath) (uuids_drawn p) nodes)"
proof (cases answer)
  case (Inl e)
  with assms show ?thesis by (simp add: parseMarkdown_def)
next
  case (Inr md)
  define p4 where "p4 = (configureMarked (p\<lparr> arrays := (arrays p)(allocated p := []),
                     parsedImages := allocated p, allocated := allocated p + 1,
                     currentBaseDir := dirname filePath \<rparr>))
                   \<lparr> renderers_used := renderers_used (configureMarked p) + 1 \<rparr>"
  have p4: "arrays p4 = (arrays p)(allocated p := [])" "parsedImages p4 = allocated p"
    "allocated p4 = allocated p + 1" "currentBaseDir p4 = dirname filePath"
    "uuids_drawn p4 = uuids_drawn p"
    unfolding p4_def configureMarked_def by simp_all
  note pm = parseMarkdown_text [of L md filePath p, folded p4_def]
  show ?thesis
  proof (cases "marked_lex L md")
    case None
    with assms Inr pm show ?thesis by simp
  next
    case (Some nodes)
    obtain h q where hq: "render_nodes L nodes p4 = (h, q)" by (cases "render_nodes L nodes p4")
    from pm Some hq
    have "parseMarkdown L (Inr md) filePath p =
            (Inr \<lparr> pd_html = h, pd_images = parsedImages q, pd_title = extractTitle md \<rparr>, q)"
      by simp
    with assms [unfolded Inr]
    have "(Inr d :: error + ParsedDocument, p') =
            (Inr \<lparr> pd_html = h, pd_images = parsedImages q, pd_title = extractTitle md \<rparr>, q)"
      by (rule trans [OF sym])
    then have d: "d = \<lparr> pd_html = h, pd_images = parsedImages q, pd_title = extractTitle md \<rparr>"
      and q: "p' = q"
      by blast+
    note st = render_nodes_state [OF hq]
    from st have h: "h = concat (map node_html nodes)" by blast
    have "arrays p' = (arrays p)(allocated p := own_images L (dirname filePath) (uuids_drawn p) nodes)"
      unfolding q using st by (simp add: p4)
    moreover have "pd_images d = allocated p" "allocated p' = allocated p + 1"
      unfolding d q using st by (simp_all add: p4)
    ultimately show ?thesis using Inr Some d h by simp
  qed
qed

lemma parseMarkdown_frame:
  assumes "parseMarkdown L answer filePath p = (r, p')" and "a \<noteq> allocated p"
  shows "arrays p' a = arrays p a"
proof (cases answer)
  case (Inl e)
  with assms show ?thesis by (simp add: parseMarkdown_def)
next
  case (Inr md)
  define p4 where "p4 = (configureMarked (p\<lparr> arrays := (arrays p)(allocated p := []),
                     parsedImages := allocated p, allocated := allocated p + 1,
                     currentBaseDir := dirname filePath \<rparr>))
                   \<lparr> renderers_used := renderers_used (configureMarked p) + 1 \<rparr>"
  have p4: "arrays p4 = (arrays p)(allocated p := [])" "parsedImages p4 = allocated p"
    unfolding p4_def configureMarked_def by simp_all
  note pm = parseMarkdown_text [of L md filePath p, folded p4_def]
  show ?thesis
  proof (cases "marked_lex L md")
    case None
    with pm have "snd (parseMarkdown L (Inr md) filePath p) = p4" by simp
    with assms Inr have "p' = p4" by simp
    with p4 assms(2) show ?thesis by simp
  next
    case (Some nodes)
    obtain h q where hq: "render_nodes L nodes p4 = (h, q)" by (cases "render_nodes L nodes p4")
    from pm Some hq have "snd (parseMarkdown L (Inr md) filePath p) = q" by simp
    with assms Inr have q: "p' = q" by simp
    from render_nodes_state [OF hq]
    have "arrays q a = arrays p4 a"
      using p4 assms(2) by simp
    with q p4 assms(2) show ?thesis by simp
  qed
qed

text \<open>
  Claim C9. Take two calls of \<open>parseMarkdown\<close> one after the other, the first of which
  returned a document. Whatever the second call does, what the first document holds is
  afterwards what it held before: its text, its title and the elements of its image
  list. When the second call returns a document too, its image list is another array
  than the first document's, and its elements are the images of the second text alone,
  resolved against the directory of the second file: nothing of the first call's list
  or base directory is in it.
\<close>

theorem parseMarkdown_calls_share_no_images:
  assumes first_call: "parseMarkdown L answer1 path1 p0 = (Inr d1, p1)"
      and second_call: "parseMarkdown L answer2 path2 p1 = (r2, p2)"
  shows "content_of p2 d1 = content_of p1 d1
         \<and> (\<forall>d2. r2 = Inr d2 \<longrightarrow>
              pd_images d2 \<noteq> pd_images d1
              \<and> (\<exists>md nodes. answer2 = Inr md \<and> marked_lex L md = Some nodes
                    \<and> md_images (content_of p2 d2)
                        = own_images L (dirname path2) (uuids_drawn p1) nodes
                    \<and> md_html (content_of p2 d2) = concat (map node_html nodes)
                    \<and> md_title (content_of p2 d2) = extractTitle md))"
proof -
  from parseMarkdown_success [OF first_call]
  have d1: "pd_images d1 = allocated p0" and a1: "allocated p1 = allocated p0 + 1" by auto
  have "arrays p2 (pd_images d1) = arrays p1 (pd_images d1)"
    by (rule parseMarkdown_frame [OF second_call]) (simp add: d1 a1)
  then have one: "content_of p2 d1 = content_of p1 d1" by (simp add: content_of_def)
  have two: "pd_images d2 \<noteq> pd_images d1
              \<and> (\<exists>md nodes. answer2 = Inr md \<and> marked_lex L md = Some nodes
                    \<and> md_images (content_of p2 d2)
                        = own_images L (dirname path2) (uuids_drawn p1) nodes
                    \<and> md_html (content_of p2 d2) = concat (map node_html nodes)
                    \<and> md_title (content_of p2 d2) = extractTitle md)"
    if "r2 = Inr d2" for d2
  proof -
    from second_call that have s: "parseMarkdown L answer2 path2 p1 = (Inr d2, p2)" by simp
    from parseMarkdown_success [OF s] obtain md nodes where
      f: "answer2 = Inr md" "marked_lex L md = Some nodes" and
      h: "pd_html d2 = concat (map node_html nodes)" "pd_title d2 = extractTitle md" and
      i: "pd_images d2 = allocated p1" and
      a: "arrays p2 = (arrays p1)(allocated p1 := own_images L (dirname path2) (uuids_drawn p1) nodes)"
      by auto
    have "md_images (content_of p2 d2) = own_images L (dirname path2) (uuids_drawn p1) nodes"
      by (simp add: content_of_def i a)
    moreover have "md_html (content_of p2 d2) = concat (map node_html nodes)"
      "md_title (content_of p2 d2) = extractTitle md"
      by (simp_all add: content_of_def h)
    ultimately show ?thesis using f i d1 a1 by simp
  qed
  from one two show ?thesis by blast
qed

lemma example_calls:
  \<open>fst first_call
     = Inr \<lparr> pd_html = ''<p><img src="images/a.png" alt="a" /></p>\<newline>'', pd_images = 1,
             pd_title = None \<rparr>\<close>
  \<open>fst second_call
     = Inr \<lparr> pd_html = ''<p><img src="images/b.jpg" alt="b" /></p>\<newline>'', pd_images = 2,
             pd_title = None \<rparr>\<close>
  \<open>uuids_drawn (snd first_call) = 1\<close>
  \<open>arrays (snd first_call) (pd_images (projr (fst first_call)))
     = [\<lparr> src = ''a.png'', resolvedPath = ''/work/docs/a.png'', mediaType = ''image/png'',
          img_id = ''img-uuid-0'' \<rparr>]\<close>
  by code_simp+

theorem parseMarkdown_calls_share_no_images_witness:
  \<open>md_images (content_of (snd second_call) (projr (fst first_call)))
     = [\<lparr> src = ''a.png'', resolvedPath = ''/work/docs/a.png'', mediaType = ''image/png'',
          img_id = ''img-uuid-0'' \<rparr>]
   \<and> content_of (snd second_call) (projr (fst first_call))
       = content_of (snd first_call) (projr (fst first_call))
   \<and> md_images (content_of (snd second_call) (projr (fst second_call)))
       = [\<lparr> src = ''b.jpg'', resolvedPath = ''/work/notes/b.jpg'', mediaType = ''image/jpeg'',
            img_id = ''img-uuid-1'' \<rparr>]
   \<and> pd_images (projr (fst second_call)) = 2 \<and> pd_images (projr (fst first_call)) = 1\<close>
proof -
  let ?d1 = "projr (fst first_call)"
  let ?d2 = "projr (fst second_call)"
  have c1: "parseMarkdown example_libs (Inr ''![a](a.png)'') ''docs/one.md'' module_loaded
      = (Inr ?d1, snd first_call)"
    using example_calls(1) by (simp add: first_call_def [symmetric] prod_eq_iff)
  have c2: "parseMarkdown example_libs (Inr ''![b](b.jpg)'') ''notes/two.md'' (snd first_call)
      = (Inr ?d2, snd second_call)"
    using example_calls(2) by (simp add: second_call_def [symmetric] prod_eq_iff)
  note t = parseMarkdown_calls_share_no_images [OF c1 c2]
  have same: "content_of (snd second_call) ?d1 = content_of (snd first_call) ?d1" using t by blast
  from t obtain md nodes where m: "(Inr ''![b](b.jpg)'' :: error + string) = Inr md"
      "marked_lex example_libs md = Some nodes"
      "md_images (content_of (snd second_call) ?d2)
         = own_images example_libs (dirname ''notes/two.md'') (uuids_drawn (snd first_call)) nodes"
    by blast
  have md: "md = ''![b](b.jpg)''" using m(1) by simp
  have nodes: \<open>nodes = [HtmlNode ''<p>'', ImageNode ''b.jpg'' None ''b'', HtmlNode ''</p>\<newline>'']\<close>
    using m(2) unfolding md by (simp add: example_libs_def example_marked_def)
  have dir: "dirname ''notes/two.md'' = ''notes''"
    by (simp add: dirname_def is_slash_def Let_def)
  have ext: "extname ''b.jpg'' = ''.jpg''"
    by (simp add: extname_def basename_def is_slash_def Let_def)
  have own: \<open>md_images (content_of (snd second_call) ?d2)
       = [\<lparr> src = ''b.jpg'', resolvedPath = ''/work/notes/b.jpg'', mediaType = ''image/jpeg'',
            img_id = ''img-uuid-1'' \<rparr>]\<close>
    unfolding m(3) nodes dir example_calls(3)
    by (simp add: image_reference_def example_libs_def example_mime_def ext js_or_def startsWith_def
        show_nat.simps digit_char_def)
  have old: \<open>md_images (content_of (snd second_call) ?d1)
     = [\<lparr> src = ''a.png'', resolvedPath = ''/work/docs/a.png'', mediaType = ''image/png'',
          img_id = ''img-uuid-0'' \<rparr>]\<close>
    unfolding same by (simp only: content_of_def MarkdownContent.simps example_calls(4))
  have ids: "pd_images ?d2 = 2" "pd_images ?d1 = 1"
    by (simp_all add: example_calls(1) example_calls(2))
  show ?thesis using old same own ids by simp
qed

end
